theory Spec2Isabelle
  imports Main "HOL-Library.Sublist"
begin

section \<open>Values, errors and effects\<close>

text \<open>
  The program handles whatever \<^verbatim>\<open>response.json()\<close> produced: Python values built from
  \<^verbatim>\<open>None\<close>, booleans, integers, strings, lists and dictionaries with string keys. A
  dictionary is an association list in insertion order (its keys are distinct in Python).
  A string is a list of characters, each a code point below 256 (the Latin-1 range);
  JSON numbers with a fraction are not represented.
\<close>

datatype json =
    JNull
  | JBool bool
  | JInt int
  | JStr string
  | JList "json list"
  | JDict "(string \<times> json) list"

text \<open>
  The exceptions the program can meet. \<open>PlotError\<close> is an exception raised inside a call
  into the plotting library, with the name of its class; \<open>SystemExit\<close> is what \<^verbatim>\<open>exit(1)\<close>
  raises.
\<close>

datatype error =
    KeyError string
  | TypeError
  | AttributeError
  | JSONDecodeError
  | RequestException
  | HTTPError int
  | RedisConnectionError
  | PlotError string
  | SystemExit int

text \<open>
  A printed line is the f-string as written: literal text and interpolated values. The
  text that \<^verbatim>\<open>str()\<close> gives for an interpolated value is the string itself when the value is
  a string; for other values it is left symbolic.
\<close>

datatype piece = Lit string | Fmt json | FmtExc error

text \<open>
  Everything the program does to the outside, in the order it does it: the HTTP request,
  the commands sent to Redis, the lines printed and the calls into the plotting library,
  each with its arguments.
\<close>

datatype event =
    HttpGet string
  | RedisPing
  | RedisSet string string
  | RedisGet string
  | Print "piece list"
  | Figure nat nat
  | Bar "json list" "nat list" "string list"
  | Xlabel string nat
  | Ylabel string nat
  | Title string nat
  | Xticks nat
  | Yticks nat
  | BarText nat nat
  | Savefig string
  | PltShow

text \<open>
  A method runs on the state of its object, emits events and either raises or returns:
  the state and the events emitted so far survive a raise.
\<close>

type_synonym ('s, 'a) prog = "'s \<Rightarrow> 's \<times> event list \<times> (error + 'a)"

definition pret :: "'a \<Rightarrow> ('s, 'a) prog" where
  "pret x s = (s, [], Inr x)"

definition plift :: "error + 'a \<Rightarrow> ('s, 'a) prog" where
  "plift r s = (s, [], r)"

definition pemit :: "event \<Rightarrow> ('s, unit) prog" where
  "pemit ev s = (s, [ev], Inr ())"

definition pget :: "('s \<Rightarrow> 'a) \<Rightarrow> ('s, 'a) prog" where
  "pget f s = (s, [], Inr (f s))"

definition pbind :: "('s, 'a) prog \<Rightarrow> ('a \<Rightarrow> ('s, 'b) prog) \<Rightarrow> ('s, 'b) prog" where
  "pbind m f s =
     (case m s of
        (s1, t1, Inl e) \<Rightarrow> (s1, t1, Inl e)
      | (s1, t1, Inr x) \<Rightarrow> (case f x s1 of (s2, t2, r) \<Rightarrow> (s2, t1 @ t2, r)))"

text \<open>A \<^verbatim>\<open>for\<close> loop whose body only has effects.\<close>

fun pforeach :: "'a list \<Rightarrow> ('a \<Rightarrow> ('s, unit) prog) \<Rightarrow> ('s, unit) prog" where
  "pforeach [] body = pret ()"
| "pforeach (x # xs) body = pbind (body x) (\<lambda>_. pforeach xs body)"

section \<open>Python primitives used by the program\<close>

text \<open>\<^verbatim>\<open>obj[key]\<close> with a string key: only a dictionary accepts it.\<close>

fun subscript :: "json \<Rightarrow> string \<Rightarrow> error + json" where
  "subscript (JDict kvs) k = (case map_of kvs k of None \<Rightarrow> Inl (KeyError k) | Some v \<Rightarrow> Inr v)"
| "subscript _ k = Inl TypeError"

text \<open>
  \<^verbatim>\<open>str.lower()\<close> on code points below 256: the capital letters, which are 65 to 90
  (A to Z) and 192 to 222 without the multiplication sign 215, move up by 32 to their
  small letters; every other character stays.
\<close>

definition char_lower :: "char \<Rightarrow> char" where
  "char_lower c =
     (let n = (of_char c :: nat) in
      if (65 \<le> n \<and> n \<le> 90) \<or> (192 \<le> n \<and> n \<le> 222 \<and> n \<noteq> 215) then char_of (n + 32)
      else c)"

definition str_lower :: "string \<Rightarrow> string" where
  "str_lower s = map char_lower s"

text \<open>\<^verbatim>\<open>v.lower()\<close>: only a string has the method.\<close>

fun py_lower :: "json \<Rightarrow> error + string" where
  "py_lower (JStr s) = Inr (str_lower s)"
| "py_lower _ = Inl AttributeError"

text \<open>\<^verbatim>\<open>a in b\<close> on strings: \<open>a\<close> occurs in \<open>b\<close> as a contiguous piece.\<close>

fun starts_with :: "string \<Rightarrow> string \<Rightarrow> bool" where
  "starts_with [] ys = True"
| "starts_with (x # xs) [] = False"
| "starts_with (x # xs) (y # ys) = (x = y \<and> starts_with xs ys)"

fun str_contains :: "string \<Rightarrow> string \<Rightarrow> bool" where
  "str_contains xs [] = (xs = [])"
| "str_contains xs (y # ys) = (starts_with xs (y # ys) \<or> str_contains xs ys)"

text \<open>Iterating a value: a list gives its elements, a dictionary its keys, a string its characters.\<close>

fun py_iter :: "json \<Rightarrow> error + json list" where
  "py_iter (JList xs) = Inr xs"
| "py_iter (JDict kvs) = Inr (map (\<lambda>kv. JStr (fst kv)) kvs)"
| "py_iter (JStr s) = Inr (map (\<lambda>c. JStr [c]) s)"
| "py_iter _ = Inl TypeError"

text \<open>
  \<^verbatim>\<open>Counter\<close>: a dictionary from hashable keys to counts, in insertion order. Lists and
  dictionaries are not hashable; \<^verbatim>\<open>True\<close> and \<^verbatim>\<open>1\<close> (and \<^verbatim>\<open>False\<close> and \<^verbatim>\<open>0\<close>) are the same key.
\<close>

fun hashable :: "json \<Rightarrow> bool" where
  "hashable (JList _) = False"
| "hashable (JDict _) = False"
| "hashable _ = True"

fun key_eq :: "json \<Rightarrow> json \<Rightarrow> bool" where
  "key_eq JNull JNull = True"
| "key_eq (JBool a) (JBool b) = (a = b)"
| "key_eq (JBool a) (JInt n) = (n = (if a then 1 else 0))"
| "key_eq (JInt n) (JBool a) = (n = (if a then 1 else 0))"
| "key_eq (JInt m) (JInt n) = (m = n)"
| "key_eq (JStr s) (JStr t) = (s = t)"
| "key_eq _ _ = False"

fun counter_incr :: "(json \<times> nat) list \<Rightarrow> json \<Rightarrow> (json \<times> nat) list" where
  "counter_incr [] k = [(k, 1)]"
| "counter_incr ((k', n) # c) k =
     (if key_eq k' k then (k', n + 1) # c else (k', n) # counter_incr c k)"

definition counter_add :: "(json \<times> nat) list \<Rightarrow> json \<Rightarrow> error + (json \<times> nat) list" where
  "counter_add c k = (if hashable k then Inr (counter_incr c k) else Inl TypeError)"

section \<open>APICharacterRetriever\<close>

text \<open>
  What \<^verbatim>\<open>requests.get\<close> hands back: the status code and the body as \<^verbatim>\<open>response.json()\<close>
  parses it (\<open>None\<close> when the body is not JSON).
\<close>

record response =
  status_code :: int
  json_body :: "json option"

text \<open>
  \<^verbatim>\<open>Response.raise_for_status()\<close> of the requests library: it raises for the client and
  server error codes (400 to 599) and returns for every other code.
\<close>

definition raise_for_status :: "response \<Rightarrow> error + unit" where
  "raise_for_status r =
     (if 400 \<le> status_code r \<and> status_code r < 600 then Inl (HTTPError (status_code r))
      else Inr ())"

definition response_json :: "response \<Rightarrow> error + json" where
  "response_json r = (case json_body r of None \<Rightarrow> Inl JSONDecodeError | Some v \<Rightarrow> Inr v)"

record APICharacterRetriever =
  endpoint_url :: string

text \<open>
  \<open>http\<close> is the network: the response to a GET on a URL, or \<open>None\<close> when the request
  itself fails. A method that ends without \<^verbatim>\<open>return\<close> returns \<^verbatim>\<open>None\<close>.
\<close>

definition requests_get :: "(string \<Rightarrow> response option) \<Rightarrow> string \<Rightarrow> ('s, response) prog" where
  "requests_get http url =
     pbind (pemit (HttpGet url))
       (\<lambda>_. plift (case http url of None \<Rightarrow> Inl RequestException | Some r \<Rightarrow> Inr r))"

definition get_characters ::
  "(string \<Rightarrow> response option) \<Rightarrow> (APICharacterRetriever, json) prog" where
  "get_characters http =
     pbind (pget endpoint_url) (\<lambda>url.
     pbind (requests_get http url) (\<lambda>response.
       if status_code response = 200 then
         pbind (plift (response_json response)) (\<lambda>parsed. plift (subscript parsed ''results''))
       else
         pbind (plift (raise_for_status response)) (\<lambda>_. pret JNull)))"

section \<open>RedisDataHandler\<close>

text \<open>
  The Redis server as the client sees it: reachable or not, and the strings it holds under
  each key (\<^verbatim>\<open>decode_responses=True\<close>: values come back as strings). A command sent to an
  unreachable server raises the client's \<^verbatim>\<open>ConnectionError\<close>. The handler's only attribute
  is the client, which stands for the server it talks to.
\<close>

record redis_server =
  reachable :: bool
  keyspace :: "string \<Rightarrow> string option"

record RedisDataHandler =
  redis_client :: redis_server

definition pmodify :: "('s \<Rightarrow> 's) \<Rightarrow> ('s, unit) prog" where
  "pmodify f s = (f s, [], Inr ())"

text \<open>\<^verbatim>\<open>try: m except E: h\<close>: \<open>handler\<close> says which exceptions are caught and what runs then.\<close>

definition ptry :: "('s, 'a) prog \<Rightarrow> (error \<Rightarrow> ('s, 'a) prog option) \<Rightarrow> ('s, 'a) prog" where
  "ptry m handler s =
     (case m s of
        (s1, t1, Inr x) \<Rightarrow> (s1, t1, Inr x)
      | (s1, t1, Inl e) \<Rightarrow>
          (case handler e of
             None \<Rightarrow> (s1, t1, Inl e)
           | Some h \<Rightarrow> (case h s1 of (s2, t2, r) \<Rightarrow> (s2, t1 @ t2, r))))"

definition client_ping :: "(RedisDataHandler, json) prog" where
  "client_ping =
     pbind (pemit RedisPing) (\<lambda>_.
     pbind (pget (\<lambda>h. reachable (redis_client h))) (\<lambda>up.
       if up then pret (JBool True) else plift (Inl RedisConnectionError)))"

definition client_set :: "string \<Rightarrow> string \<Rightarrow> (RedisDataHandler, json) prog" where
  "client_set k v =
     pbind (pemit (RedisSet k v)) (\<lambda>_.
     pbind (pget (\<lambda>h. reachable (redis_client h))) (\<lambda>up.
       if up then
         pbind (pmodify (\<lambda>h. h\<lparr>redis_client :=
                   (redis_client h)\<lparr>keyspace := (keyspace (redis_client h))(k \<mapsto> v)\<rparr>\<rparr>))
           (\<lambda>_. pret (JBool True))
       else plift (Inl RedisConnectionError)))"

definition client_get :: "string \<Rightarrow> (RedisDataHandler, string option) prog" where
  "client_get k =
     pbind (pemit (RedisGet k)) (\<lambda>_.
     pbind (pget (\<lambda>h. reachable (redis_client h))) (\<lambda>up.
       if up then pget (\<lambda>h. keyspace (redis_client h) k)
       else plift (Inl RedisConnectionError)))"

definition ping :: "(RedisDataHandler, json) prog" where
  "ping =
     ptry (pbind client_ping (\<lambda>_. pret JNull))
       (\<lambda>e. case e of
          RedisConnectionError \<Rightarrow>
            Some (pbind (pemit (Print [Lit ''Unable to connect to Redis: '', FmtExc e]))
                    (\<lambda>_. plift (Inl (SystemExit 1))))
        | _ \<Rightarrow> None)"

text \<open>
  A handler method seen from the program that owns the handler: it runs against the server
  that the handler's client talks to (the one the default host and port lead to), and what
  it does to the server stays done.
\<close>

definition on_redis :: "(RedisDataHandler, 'a) prog \<Rightarrow> (redis_server, 'a) prog" where
  "on_redis m srv = (case m \<lparr>redis_client = srv\<rparr> of (h, t, r) \<Rightarrow> (redis_client h, t, r))"

text \<open>The constructor builds the client (which connects on its first command) and pings.\<close>

definition RedisDataHandler_init :: "(redis_server, json) prog" where
  "RedisDataHandler_init = on_redis ping"

text \<open>
  \<open>dumps\<close> and \<open>loads\<close> are \<^verbatim>\<open>json.dumps\<close> and \<^verbatim>\<open>json.loads\<close> of the standard library.
  \<^verbatim>\<open>if data\<close> is false for a missing key and for the empty string.
\<close>

definition save_data ::
  "(json \<Rightarrow> string) \<Rightarrow> string \<Rightarrow> json \<Rightarrow> (RedisDataHandler, json) prog" where
  "save_data dumps key val = pbind (client_set key (dumps val)) (\<lambda>_. pret JNull)"

definition load_data ::
  "(string \<Rightarrow> error + json) \<Rightarrow> string \<Rightarrow> (RedisDataHandler, json) prog" where
  "load_data loads key =
     pbind (client_get key) (\<lambda>d.
       case d of
         None \<Rightarrow> pret JNull
       | Some text \<Rightarrow> if text \<noteq> [] then plift (loads text) else pret JNull)"

section \<open>CharacterDataProcessor\<close>

record CharacterDataProcessor =
  data :: json

definition nl :: char where
  "nl = CHR 0x0A"

definition sq :: char where
  "sq = CHR 0x27"

text \<open>
  \<^verbatim>\<open>Counter(character['status'] for character in self.data)\<close>: the generator is consumed
  one element at a time, each status counted as soon as it is read.
\<close>

fun count_statuses :: "(json \<times> nat) list \<Rightarrow> json list \<Rightarrow> error + (json \<times> nat) list" where
  "count_statuses c [] = Inr c"
| "count_statuses c (character # rest) =
     (case subscript character ''status'' of
        Inl e \<Rightarrow> Inl e
      | Inr st \<Rightarrow>
          (case counter_add c st of
             Inl e \<Rightarrow> Inl e
           | Inr c' \<Rightarrow> count_statuses c' rest))"

definition status_distribution :: "json \<Rightarrow> error + (json \<times> nat) list" where
  "status_distribution d =
     (case py_iter d of Inl e \<Rightarrow> Inl e | Inr characters \<Rightarrow> count_statuses [] characters)"

text \<open>
  The plotting library is a black box that the program calls and that may raise. \<open>plt\<close> says,
  for a call with its arguments, whether it returns (\<open>None\<close>) or raises, and what it
  raises. A call that raises has been made all the same. The calls of one chart differ
  from each other, so \<open>plt\<close> can describe any way in which the drawing of a chart goes.
\<close>

definition plt_call :: "(event \<Rightarrow> string option) \<Rightarrow> event \<Rightarrow> ('s, unit) prog" where
  "plt_call plt ev =
     pbind (pemit ev) (\<lambda>_.
       case plt ev of None \<Rightarrow> pret () | Some exn \<Rightarrow> plift (Inl (PlotError exn)))"

definition display_status_distribution ::
  "(event \<Rightarrow> string option) \<Rightarrow> string \<Rightarrow> (CharacterDataProcessor, json) prog" where
  "display_status_distribution plt save_path =
     pbind (pget data) (\<lambda>d.
     pbind (plift (status_distribution d)) (\<lambda>dist.
     pbind (plt_call plt (Figure 10 6)) (\<lambda>_.
     pbind (plt_call plt (Bar (map fst dist) (map snd dist) [''blue'', ''green'', ''red''])) (\<lambda>_.
     pbind (plt_call plt (Xlabel ''Character Status'' 14)) (\<lambda>_.
     pbind (plt_call plt (Ylabel ''Count'' 14)) (\<lambda>_.
     pbind (plt_call plt (Title ''Distribution of Character Statuses in Rick and Morty'' 16)) (\<lambda>_.
     pbind (plt_call plt (Xticks 12)) (\<lambda>_.
     pbind (plt_call plt (Yticks 12)) (\<lambda>_.
     pbind (pforeach (enumerate 0 (map snd dist)) (\<lambda>(i, yval). plt_call plt (BarText i yval))) (\<lambda>_.
     pbind (plt_call plt (Savefig save_path)) (\<lambda>_.
     pbind (plt_call plt PltShow) (\<lambda>_.
     pret JNull))))))))))))"

text \<open>
  The list comprehension of \<^verbatim>\<open>show_characters_by_species\<close>: for each character, in order,
  \<^verbatim>\<open>character['species'].lower() == target_species.lower()\<close>.
\<close>

fun species_matches :: "json list \<Rightarrow> string \<Rightarrow> error + json list" where
  "species_matches [] target_species = Inr []"
| "species_matches (character # rest) target_species =
     (case subscript character ''species'' of
        Inl e \<Rightarrow> Inl e
      | Inr sp \<Rightarrow>
          (case py_lower sp of
             Inl e \<Rightarrow> Inl e
           | Inr l \<Rightarrow>
               (case species_matches rest target_species of
                  Inl e \<Rightarrow> Inl e
                | Inr ms \<Rightarrow> Inr (if l = str_lower target_species then character # ms else ms))))"

definition species_line :: "json \<Rightarrow> (CharacterDataProcessor, unit) prog" where
  "species_line character =
     pbind (plift (subscript character ''name'')) (\<lambda>n.
     pbind (plift (subscript character ''status'')) (\<lambda>st.
     pemit (Print [Lit ''- '', Fmt n, Lit '' ('', Fmt st, Lit '')''])))"

definition show_characters_by_species :: "string \<Rightarrow> (CharacterDataProcessor, json) prog" where
  "show_characters_by_species target_species =
     pbind (pget data) (\<lambda>d.
     pbind (plift (py_iter d)) (\<lambda>characters.
     pbind (plift (species_matches characters target_species)) (\<lambda>matches.
     pbind (pemit (Print [Lit (nl # ''List of '' @ [sq]), Lit target_species,
                          Lit (sq # '' characters:'')])) (\<lambda>_.
     pbind (pforeach matches species_line) (\<lambda>_.
     pret JNull)))))"

text \<open>
  The list comprehension of \<^verbatim>\<open>find_characters_by_name\<close>:
  \<^verbatim>\<open>search_term.lower() in character['name'].lower()\<close>.
\<close>

fun name_matches :: "json list \<Rightarrow> string \<Rightarrow> error + json list" where
  "name_matches [] search_term = Inr []"
| "name_matches (character # rest) search_term =
     (case subscript character ''name'' of
        Inl e \<Rightarrow> Inl e
      | Inr n \<Rightarrow>
          (case py_lower n of
             Inl e \<Rightarrow> Inl e
           | Inr l \<Rightarrow>
               (case name_matches rest search_term of
                  Inl e \<Rightarrow> Inl e
                | Inr ms \<Rightarrow>
                    Inr (if str_contains (str_lower search_term) l then character # ms else ms))))"

definition name_line :: "json \<Rightarrow> (CharacterDataProcessor, unit) prog" where
  "name_line character =
     pbind (plift (subscript character ''name'')) (\<lambda>n.
     pbind (plift (subscript character ''species'')) (\<lambda>sp.
     pemit (Print [Lit ''- '', Fmt n, Lit '' ('', Fmt sp, Lit '')''])))"

definition find_characters_by_name :: "string \<Rightarrow> (CharacterDataProcessor, json) prog" where
  "find_characters_by_name search_term =
     pbind (pget data) (\<lambda>d.
     pbind (plift (py_iter d)) (\<lambda>characters.
     pbind (plift (name_matches characters search_term)) (\<lambda>matches.
       if matches = [] then
         pbind (pemit (Print [Lit (''No characters found with '' @ [sq]), Lit search_term,
                              Lit (sq # '' in their name.'')])) (\<lambda>_.
         pret JNull)
       else
         pbind (pemit (Print [Lit (nl # ''Characters containing '' @ [sq]), Lit search_term,
                              Lit (sq # '' in their name:'')])) (\<lambda>_.
         pbind (pforeach matches name_line) (\<lambda>_.
         pret JNull)))))"

definition process_data :: "(event \<Rightarrow> string option) \<Rightarrow> (CharacterDataProcessor, json) prog" where
  "process_data plt =
     pbind (display_status_distribution plt ''status_distribution.png'') (\<lambda>_.
     pbind (show_characters_by_species ''Human'') (\<lambda>_.
     pbind (find_characters_by_name ''Morty'') (\<lambda>_.
     pret JNull)))"

section \<open>WorkflowExecutor\<close>

record WorkflowExecutor =
  api_endpoint :: string
  redis_key :: string

text \<open>
  A run happens against the Redis server, the state that outlives it. \<open>pcall\<close> runs a
  method on an object made inside the run.
\<close>

definition pcall :: "('o, 'a) prog \<Rightarrow> 'o \<Rightarrow> ('s, 'a) prog" where
  "pcall m obj s = (case m obj of (obj', t, r) \<Rightarrow> (s, t, r))"

definition execute ::
  "(event \<Rightarrow> string option) \<Rightarrow> (json \<Rightarrow> string) \<Rightarrow> (string \<Rightarrow> response option) \<Rightarrow>
   WorkflowExecutor \<Rightarrow> (redis_server, json) prog" where
  "execute plt dumps http self =
     pbind (pcall (get_characters http) \<lparr>endpoint_url = api_endpoint self\<rparr>) (\<lambda>character_data.
     pbind RedisDataHandler_init (\<lambda>_.
     pbind (on_redis (save_data dumps (redis_key self) character_data)) (\<lambda>_.
     pbind (pcall (process_data plt) \<lparr>data = character_data\<rparr>) (\<lambda>_.
     pret JNull))))"

text \<open>
  The exit status of the process: 0 when the run returns, the argument of \<^verbatim>\<open>exit\<close> when
  \<open>SystemExit\<close> reaches the top, 1 for any other uncaught exception.
\<close>

definition exit_status :: "error + 'a \<Rightarrow> int" where
  "exit_status r = (case r of Inr _ \<Rightarrow> 0 | Inl (SystemExit n) \<Rightarrow> n | Inl _ \<Rightarrow> 1)"

section \<open>Records and what the report is expected to show\<close>

text \<open>
  A record is a character with text fields \<open>name\<close>, \<open>status\<close> and \<open>species\<close>; it may have
  other fields of any shape.
\<close>

definition text_field :: "string \<Rightarrow> json \<Rightarrow> string option" where
  "text_field f r = (case subscript r f of Inr (JStr s) \<Rightarrow> Some s | _ \<Rightarrow> None)"

definition is_record :: "json \<Rightarrow> bool" where
  "is_record r \<longleftrightarrow>
     text_field ''name'' r \<noteq> None \<and> text_field ''status'' r \<noteq> None \<and>
     text_field ''species'' r \<noteq> None"

definition field_text :: "string \<Rightarrow> json \<Rightarrow> string" where
  "field_text f r = (case text_field f r of Some s \<Rightarrow> s | None \<Rightarrow> [])"

text \<open>
  Comparing text without regard to letter case. Two characters are the same letter when
  they are equal or one is a capital letter (A to Z, and the accented capitals from 192 to
  222 other than the multiplication sign) and the other its small letter, 32 further on.
  Two texts are the same when they have the same letters, one by one. A term occurs in
  a text when it is the same as some contiguous piece of it.
\<close>

definition capital :: "char \<Rightarrow> bool" where
  "capital c \<longleftrightarrow>
     (let n = (of_char c :: nat) in
      (65 \<le> n \<and> n \<le> 90) \<or> (192 \<le> n \<and> n \<le> 214) \<or> (216 \<le> n \<and> n \<le> 222))"

definition small_of :: "char \<Rightarrow> char" where
  "small_of c = char_of ((of_char c :: nat) + 32)"

definition same_letter :: "char \<Rightarrow> char \<Rightarrow> bool" where
  "same_letter a b \<longleftrightarrow> a = b \<or> (capital a \<and> b = small_of a) \<or> (capital b \<and> a = small_of b)"

definition same_text :: "string \<Rightarrow> string \<Rightarrow> bool" where
  "same_text s t = list_all2 same_letter s t"

definition occurs_in :: "string \<Rightarrow> string \<Rightarrow> bool" where
  "occurs_in term s = list_ex (same_text term) (sublists s)"

text \<open>The records whose species is the target, letter case aside, in input order.\<close>

definition species_subsequence :: "json list \<Rightarrow> string \<Rightarrow> json list" where
  "species_subsequence rs t = filter (\<lambda>r. same_text (field_text ''species'' r) t) rs"

text \<open>The records whose name contains the term, letter case aside, in input order.\<close>

definition name_subsequence :: "json list \<Rightarrow> string \<Rightarrow> json list" where
  "name_subsequence rs t = filter (\<lambda>r. occurs_in t (field_text ''name'' r)) rs"

text \<open>The lines of the report.\<close>

definition record_line :: "string \<Rightarrow> string \<Rightarrow> json \<Rightarrow> event" where
  "record_line f g r =
     Print [Lit ''- '', Fmt (JStr (field_text f r)), Lit '' ('', Fmt (JStr (field_text g r)),
            Lit '')'']"

definition species_header :: "string \<Rightarrow> event" where
  "species_header t = Print [Lit (nl # ''List of '' @ [sq]), Lit t, Lit (sq # '' characters:'')]"

definition name_header :: "string \<Rightarrow> event" where
  "name_header t =
     Print [Lit (nl # ''Characters containing '' @ [sq]), Lit t, Lit (sq # '' in their name:'')]"

definition not_found_message :: "string \<Rightarrow> event" where
  "not_found_message t =
     Print [Lit (''No characters found with '' @ [sq]), Lit t, Lit (sq # '' in their name.'')]"

text \<open>
  The distinct elements of a list in the order in which they first occur, and the
  distribution of a list of statuses: each distinct status with its number of occurrences.
\<close>

fun first_occurrences :: "'a list \<Rightarrow> 'a list" where
  "first_occurrences [] = []"
| "first_occurrences (x # xs) = x # filter (\<lambda>y. y \<noteq> x) (first_occurrences xs)"

definition statuses :: "json list \<Rightarrow> string list" where
  "statuses rs = map (field_text ''status'') rs"

definition tally :: "string list \<Rightarrow> (json \<times> nat) list" where
  "tally sts = map (\<lambda>s. (JStr s, count_list sts s)) (first_occurrences sts)"

text \<open>A small collection to run the program on.\<close>

definition rick :: json where
  "rick = JDict [(''id'', JInt 1), (''name'', JStr ''Rick Sanchez''),
                 (''status'', JStr ''Alive''), (''species'', JStr ''Human'')]"

definition googah :: json where
  "googah = JDict [(''id'', JInt 3), (''name'', JStr ''Alien Googah''),
                   (''status'', JStr ''unknown''), (''species'', JStr ''Alien'')]"

definition morty :: json where
  "morty = JDict [(''id'', JInt 2), (''name'', JStr ''Morty Smith''),
                  (''status'', JStr ''Alive''), (''species'', JStr ''Human'')]"

definition fixture :: "json list" where
  "fixture = [rick, googah, morty]"



definition cash :: json where
  "cash = JDict [(''name'', JStr ''Cash''), (''status'', JStr ''$$''), (''species'', JStr ''Human'')]"

text \<open>
  A plotting library in which every call returns, and one in which saving the figure
  raises (as happens when a label of the chart cannot be rendered as text).
\<close>

definition plt_ok :: "event \<Rightarrow> string option" where
  "plt_ok ev = None"

definition savefig_raises :: "event \<Rightarrow> string option" where
  "savefig_raises ev = (case ev of Savefig path \<Rightarrow> Some ''ValueError'' | _ \<Rightarrow> None)"

text \<open>The calls into the plotting library that draw and save the chart of a distribution.\<close>

definition chart_events :: "(json \<times> nat) list \<Rightarrow> string \<Rightarrow> event list" where
  "chart_events dist path =
     [Figure 10 6,
      Bar (map fst dist) (map snd dist) [''blue'', ''green'', ''red''],
      Xlabel ''Character Status'' 14,
      Ylabel ''Count'' 14,
      Title ''Distribution of Character Statuses in Rick and Morty'' 16,
      Xticks 12,
      Yticks 12]
     @ map (\<lambda>(i, n). BarText i n) (enumerate 0 (map snd dist))
     @ [Savefig path, PltShow]"

text \<open>The line printed when Redis cannot be reached.\<close>

definition connection_diagnostic :: event where
  "connection_diagnostic = Print [Lit ''Unable to connect to Redis: '', FmtExc RedisConnectionError]"

text \<open>
  What it means for a method to be part of the report only: it leaves its object as it
  was, sends nothing to Redis, and does not end the process.
\<close>

fun is_redis :: "event \<Rightarrow> bool" where
  "is_redis RedisPing = True"
| "is_redis (RedisSet k v) = True"
| "is_redis (RedisGet k) = True"
| "is_redis _ = False"

definition no_exit :: "error + 'a \<Rightarrow> bool" where
  "no_exit r = (\<forall>n. r \<noteq> Inl (SystemExit n))"

definition report_only :: "('s, 'a) prog \<Rightarrow> bool" where
  "report_only m =
     (\<forall>s. fst (m s) = s \<and> list_all (\<lambda>ev. \<not> is_redis ev) (fst (snd (m s))) \<and> no_exit (snd (snd (m s))))"

section \<open>A JSON codec to run the cache on\<close>

text \<open>
  \<open>save_data\<close> and \<open>load_data\<close> take the codec as a parameter. To run them, here is the text
  \<^verbatim>\<open>json.dumps\<close> writes for a value (default separators, everything outside printable ASCII
  escaped), and a reader of JSON text for the values of type \<open>json\<close>: a number with a
  fraction or an exponent, and an escape for a code point above 255, are refused.
\<close>

definition dq :: char where
  "dq = CHR 0x22"

definition bs :: char where
  "bs = CHR 0x5C"

definition digit_char :: "nat \<Rightarrow> char" where
  "digit_char d = char_of (48 + d)"

function show_nat :: "nat \<Rightarrow> string" where
  "show_nat n = (if n < 10 then [digit_char n] else show_nat (n div 10) @ [digit_char (n mod 10)])"
  by pat_completeness auto
termination
  by (relation "measure id") auto

declare show_nat.simps [simp del]

definition show_int :: "int \<Rightarrow> string" where
  "show_int i = (if i < 0 then CHR ''-'' # show_nat (nat (- i)) else show_nat (nat i))"

definition hex_char :: "nat \<Rightarrow> char" where
  "hex_char d = (if d < 10 then char_of (48 + d) else char_of (87 + d))"

definition escape_char :: "char \<Rightarrow> string" where
  "escape_char c =
     (let n = (of_char c :: nat) in
      if c = dq then [bs, dq]
      else if c = bs then [bs, bs]
      else if n = 10 then [bs, CHR ''n'']
      else if n = 13 then [bs, CHR ''r'']
      else if n = 9 then [bs, CHR ''t'']
      else if n = 8 then [bs, CHR ''b'']
      else if n = 12 then [bs, CHR ''f'']
      else if n < 32 \<or> 126 < n then [bs, CHR ''u'', CHR ''0'', CHR ''0'', hex_char (n div 16), hex_char (n mod 16)]
      else [c])"

definition json_quote :: "string \<Rightarrow> string" where
  "json_quote s = dq # concat (map escape_char s) @ [dq]"

fun join_comma :: "string list \<Rightarrow> string" where
  "join_comma [] = []"
| "join_comma [x] = x"
| "join_comma (x # y # ys) = x @ '', '' @ join_comma (y # ys)"

fun json_dumps :: "json \<Rightarrow> string" where
  "json_dumps JNull = ''null''"
| "json_dumps (JBool b) = (if b then ''true'' else ''false'')"
| "json_dumps (JInt i) = show_int i"
| "json_dumps (JStr s) = json_quote s"
| "json_dumps (JList xs) = ''['' @ join_comma (map json_dumps xs) @ '']''"
| "json_dumps (JDict kvs) =
     ''{'' @ join_comma (map (\<lambda>kv. json_quote (fst kv) @ '': '' @ json_dumps (snd kv)) kvs) @ ''}''"

definition is_space :: "char \<Rightarrow> bool" where
  "is_space c = (let n = (of_char c :: nat) in n = 32 \<or> n = 9 \<or> n = 10 \<or> n = 13)"

definition skip_ws :: "string \<Rightarrow> string" where
  "skip_ws s = dropWhile is_space s"

definition is_digit :: "char \<Rightarrow> bool" where
  "is_digit c = (let n = (of_char c :: nat) in 48 \<le> n \<and> n \<le> 57)"

definition digit_val :: "char \<Rightarrow> nat" where
  "digit_val c = of_char c - 48"

fun read_nat :: "nat \<Rightarrow> string \<Rightarrow> nat \<times> string" where
  "read_nat acc [] = (acc, [])"
| "read_nat acc (c # cs) =
     (if is_digit c then read_nat (10 * acc + digit_val c) cs else (acc, c # cs))"

definition hex_val :: "char \<Rightarrow> nat option" where
  "hex_val c =
     (let n = (of_char c :: nat) in
      if 48 \<le> n \<and> n \<le> 57 then Some (n - 48)
      else if 97 \<le> n \<and> n \<le> 102 then Some (n - 87)
      else if 65 \<le> n \<and> n \<le> 70 then Some (n - 55)
      else None)"

definition unescape_simple :: "char \<Rightarrow> char option" where
  "unescape_simple e =
     (if e = dq then Some dq
      else if e = bs then Some bs
      else if e = CHR ''/'' then Some (CHR ''/'')
      else if e = CHR ''n'' then Some (char_of (10 :: nat))
      else if e = CHR ''r'' then Some (char_of (13 :: nat))
      else if e = CHR ''t'' then Some (char_of (9 :: nat))
      else if e = CHR ''b'' then Some (char_of (8 :: nat))
      else if e = CHR ''f'' then Some (char_of (12 :: nat))
      else None)"

definition unescape_u :: "char \<Rightarrow> char \<Rightarrow> char \<Rightarrow> char \<Rightarrow> char option" where
  "unescape_u a b c d =
     (case (hex_val a, hex_val b, hex_val c, hex_val d) of
        (Some 0, Some 0, Some h, Some l) \<Rightarrow> Some (char_of (16 * h + l))
      | _ \<Rightarrow> None)"

fun read_string :: "string \<Rightarrow> (string \<times> string) option" where
  "read_string [] = None"
| "read_string (c # cs) =
     (if c = dq then Some ([], cs)
      else if c = bs then
        (case cs of
           [] \<Rightarrow> None
         | e # rest \<Rightarrow>
             if e = CHR ''u'' then
               (case rest of
                  a # b # c' # d # rest' \<Rightarrow>
                    (case unescape_u a b c' d of
                       None \<Rightarrow> None
                     | Some x \<Rightarrow> map_option (\<lambda>(str, r). (x # str, r)) (read_string rest'))
                | _ \<Rightarrow> None)
             else
               (case unescape_simple e of
                  None \<Rightarrow> None
                | Some x \<Rightarrow> map_option (\<lambda>(str, r). (x # str, r)) (read_string rest)))
      else if (of_char c :: nat) < 32 then None
      else map_option (\<lambda>(str, r). (c # str, r)) (read_string cs))"

fun strip_prefix :: "string \<Rightarrow> string \<Rightarrow> string option" where
  "strip_prefix [] s = Some s"
| "strip_prefix (x # xs) [] = None"
| "strip_prefix (x # xs) (y # ys) = (if x = y then strip_prefix xs ys else None)"

definition read_int :: "string \<Rightarrow> (json \<times> string) option" where
  "read_int s =
     (let (neg, ds) = (case s of c # r \<Rightarrow> if c = CHR ''-'' then (True, r) else (False, s) | [] \<Rightarrow> (False, s)) in
      case ds of
        [] \<Rightarrow> None
      | d # r \<Rightarrow>
          if \<not> is_digit d then None
          else
            (let (n, rest) = (if d = CHR ''0'' then (0, r) else read_nat 0 ds) in
             case rest of
               c # _ \<Rightarrow>
                 if c = CHR ''.'' \<or> c = CHR ''e'' \<or> c = CHR ''E'' then None
                 else Some (JInt (if neg then - int n else int n), rest)
             | [] \<Rightarrow> Some (JInt (if neg then - int n else int n), rest)))"

fun dict_set :: "(string \<times> json) list \<Rightarrow> string \<Rightarrow> json \<Rightarrow> (string \<times> json) list" where
  "dict_set [] k v = [(k, v)]"
| "dict_set ((k', v') # kvs) k v = (if k' = k then (k', v) # kvs else (k', v') # dict_set kvs k v)"

fun read_value :: "nat \<Rightarrow> string \<Rightarrow> (json \<times> string) option"
  and read_elems :: "nat \<Rightarrow> json list \<Rightarrow> string \<Rightarrow> (json \<times> string) option"
  and read_members :: "nat \<Rightarrow> (string \<times> json) list \<Rightarrow> string \<Rightarrow> (json \<times> string) option" where
  "read_value 0 s = None"
| "read_value (Suc fuel) s =
     (case skip_ws s of
        [] \<Rightarrow> None
      | c # r \<Rightarrow>
          if c = dq then map_option (\<lambda>(str, r'). (JStr str, r')) (read_string r)
          else if c = CHR ''['' then
            (case skip_ws r of
               [] \<Rightarrow> None
             | c' # r' \<Rightarrow> if c' = CHR '']'' then Some (JList [], r') else read_elems fuel [] r)
          else if c = CHR ''{'' then
            (case skip_ws r of
               [] \<Rightarrow> None
             | c' # r' \<Rightarrow> if c' = CHR ''}'' then Some (JDict [], r') else read_members fuel [] r)
          else if c = CHR ''n'' then map_option (\<lambda>r'. (JNull, r')) (strip_prefix ''ull'' r)
          else if c = CHR ''t'' then map_option (\<lambda>r'. (JBool True, r')) (strip_prefix ''rue'' r)
          else if c = CHR ''f'' then map_option (\<lambda>r'. (JBool False, r')) (strip_prefix ''alse'' r)
          else read_int (c # r))"
| "read_elems 0 acc s = None"
| "read_elems (Suc fuel) acc s =
     (case read_value fuel s of
        None \<Rightarrow> None
      | Some (v, r) \<Rightarrow>
          (case skip_ws r of
             [] \<Rightarrow> None
           | c # r' \<Rightarrow>
               if c = CHR '','' then read_elems fuel (acc @ [v]) r'
               else if c = CHR '']'' then Some (JList (acc @ [v]), r')
               else None))"
| "read_members 0 acc s = None"
| "read_members (Suc fuel) acc s =
     (case skip_ws s of
        [] \<Rightarrow> None
      | q # r0 \<Rightarrow>
          if q \<noteq> dq then None
          else
            (case read_string r0 of
               None \<Rightarrow> None
             | Some (k, r1) \<Rightarrow>
                 (case skip_ws r1 of
                    [] \<Rightarrow> None
                  | c # r2 \<Rightarrow>
                      if c \<noteq> CHR '':'' then None
                      else
                        (case read_value fuel r2 of
                           None \<Rightarrow> None
                         | Some (v, r3) \<Rightarrow>
                             (case skip_ws r3 of
                                [] \<Rightarrow> None
                              | c' # r4 \<Rightarrow>
                                  if c' = CHR '','' then read_members fuel (dict_set acc k v) r4
                                  else if c' = CHR ''}'' then Some (JDict (dict_set acc k v), r4)
                                  else None)))))"

definition json_loads :: "string \<Rightarrow> error + json" where
  "json_loads s =
     (case read_value (Suc (length s)) s of
        None \<Rightarrow> Inl JSONDecodeError
      | Some (v, r) \<Rightarrow> if skip_ws r = [] then Inr v else Inl JSONDecodeError)"

text \<open>
  A value as Python holds it: the keys of each dictionary are distinct.
\<close>

fun wf_json :: "json \<Rightarrow> bool" where
  "wf_json (JList xs) = list_all wf_json xs"
| "wf_json (JDict kvs) = (distinct (map fst kvs) \<and> list_all (\<lambda>kv. wf_json (snd kv)) kvs)"
| "wf_json _ = True"

text \<open>
  What can follow a value in the text \<open>json_dumps\<close> writes, what a value's text can start
  with, and the text of one member of a dictionary.
\<close>

definition delim :: "string \<Rightarrow> bool" where
  "delim rest = (case rest of [] \<Rightarrow> True | c # _ \<Rightarrow> c = CHR '','' \<or> c = CHR '']'' \<or> c = CHR ''}'')"

definition starter :: "char \<Rightarrow> bool" where
  "starter c \<longleftrightarrow> \<not> is_space c \<and> c \<noteq> CHR '']'' \<and> c \<noteq> CHR ''}''"

definition member_text :: "string \<times> json \<Rightarrow> string" where
  "member_text kv = json_quote (fst kv) @ '': '' @ json_dumps (snd kv)"

section \<open>A run to look at\<close>

text \<open>
  The first page of the API with the fixture as its results, a network that answers every
  request with that page and a given status code, one that answers 200 with a body that
  is not JSON, the executor of the main program, and a Redis server that is down or up
  with nothing stored.
\<close>

definition page :: json where
  "page = JDict [(''info'', JDict [(''count'', JInt 3)]), (''results'', JList fixture)]"

definition api_url :: string where
  "api_url = ''https://rickandmortyapi.com/api/character''"

definition replies :: "int \<Rightarrow> string \<Rightarrow> response option" where
  "replies code url = Some \<lparr>status_code = code, json_body = Some page\<rparr>"

definition garbled :: "string \<Rightarrow> response option" where
  "garbled url = Some \<lparr>status_code = 200, json_body = None\<rparr>"

definition demo_executor :: WorkflowExecutor where
  "demo_executor = \<lparr>api_endpoint = api_url, redis_key = ''rickandmorty:characters''\<rparr>"

definition redis_down :: redis_server where
  "redis_down = \<lparr>reachable = False, keyspace = Map.empty\<rparr>"

definition redis_up :: redis_server where
  "redis_up = \<lparr>reachable = True, keyspace = Map.empty\<rparr>"

section \<open>Properties\<close>

subsection \<open>Auxiliary facts\<close>

lemmas prog_defs = pret_def plift_def pemit_def pget_def pbind_def

lemma text_field_subscript:
  "text_field f r = Some s \<Longrightarrow> subscript r f = Inr (JStr s)"
  by (auto simp: text_field_def split: sum.splits json.splits)

lemma text_field_SomeE:
  "text_field f r \<noteq> None \<Longrightarrow> subscript r f = Inr (JStr (field_text f r))"
  by (auto simp: field_text_def dest: text_field_subscript)

lemma pforeach_emit:
  "(\<And>x. x \<in> set xs \<Longrightarrow> body x s = (s, [g x], Inr ())) \<Longrightarrow>
   pforeach xs body s = (s, map g xs, Inr ())"
  by (induction xs) (simp_all add: prog_defs)

lemma species_line_record:
  "is_record r \<Longrightarrow> species_line r s = (s, [record_line ''name'' ''status'' r], Inr ())"
  by (simp add: species_line_def record_line_def is_record_def prog_defs text_field_SomeE)

lemma name_line_record:
  "is_record r \<Longrightarrow> name_line r s = (s, [record_line ''name'' ''species'' r], Inr ())"
  by (simp add: name_line_def record_line_def is_record_def prog_defs text_field_SomeE)

lemma starts_with_prefix: "starts_with xs ys \<longleftrightarrow> prefix xs ys"
  by (induction xs ys rule: starts_with.induct) simp_all

lemma str_contains_sublist: "str_contains xs ys \<longleftrightarrow> sublist xs ys"
  by (induction ys) (simp_all add: starts_with_prefix sublist_Cons_right)

lemma of_char_char_lower:
  "(of_char (char_lower c) :: nat) = (if capital c then of_char c + 32 else of_char c)"
proof -
  have "(of_char c :: nat) < 256" by simp
  then show ?thesis
    by (auto simp: char_lower_def capital_def Let_def take_bit_nat_eq_self)
qed

lemma of_char_small_of:
  "capital c \<Longrightarrow> (of_char (small_of c) :: nat) = of_char c + 32"
  by (auto simp: small_of_def capital_def Let_def take_bit_nat_eq_self)

lemma capital_small_of: "capital c \<Longrightarrow> \<not> capital (small_of c)"
  by (auto simp: capital_def Let_def of_char_small_of [unfolded capital_def Let_def])

lemma char_eq_iff_nat: "a = b \<longleftrightarrow> (of_char a :: nat) = of_char b"
  by auto

lemma eq_small_of_iff:
  "capital a \<Longrightarrow> b = small_of a \<longleftrightarrow> (of_char b :: nat) = of_char a + 32"
  using of_char_small_of [of a] by (auto simp: char_eq_iff_nat [of b "small_of a"])

lemma same_letter_codes:
  "same_letter a b \<longleftrightarrow>
     (of_char a :: nat) = of_char b
     \<or> (capital a \<and> (of_char b :: nat) = of_char a + 32)
     \<or> (capital b \<and> (of_char a :: nat) = of_char b + 32)"
  unfolding same_letter_def
  using eq_small_of_iff [of a b] eq_small_of_iff [of b a] by auto

lemma char_lower_eq_iff: "char_lower a = char_lower b \<longleftrightarrow> same_letter a b"
proof -
  have "char_lower a = char_lower b \<longleftrightarrow>
      (of_char (char_lower a) :: nat) = of_char (char_lower b)"
    by (rule char_eq_iff_nat)
  also have "\<dots> \<longleftrightarrow> same_letter a b"
    unfolding of_char_char_lower same_letter_codes
    by (auto simp: capital_def Let_def)
  finally show ?thesis .
qed

lemma str_lower_eq_iff: "str_lower s = str_lower t \<longleftrightarrow> same_text s t"
  unfolding str_lower_def same_text_def
proof (induction s arbitrary: t)
  case Nil
  show ?case by auto
next
  case (Cons a s)
  show ?case
    by (cases t) (simp_all add: Cons.IH char_lower_eq_iff)
qed

lemma sublist_map_iff:
  "sublist (map f t) (map f s) \<longleftrightarrow> (\<exists>w. sublist w s \<and> map f w = map f t)"
proof
  assume "sublist (map f t) (map f s)"
  then obtain ps ss where "map f s = ps @ map f t @ ss"
    by (auto simp: sublist_def)
  then obtain s1 s2 s3 where "s = s1 @ s2 @ s3" "map f s2 = map f t"
    by (auto simp: map_eq_append_conv append_eq_map_conv)
  then show "\<exists>w. sublist w s \<and> map f w = map f t"
    by (auto simp: sublist_def)
next
  assume "\<exists>w. sublist w s \<and> map f w = map f t"
  then obtain w ps ss where "s = ps @ w @ ss" "map f w = map f t"
    by (auto simp: sublist_def)
  then have "map f s = map f ps @ map f t @ map f ss" by simp
  then show "sublist (map f t) (map f s)"
    unfolding sublist_def by blast
qed

lemma str_contains_lower_iff:
  "str_contains (str_lower t) (str_lower s) \<longleftrightarrow> occurs_in t s"
proof -
  have "str_contains (str_lower t) (str_lower s) \<longleftrightarrow> (\<exists>w. sublist w s \<and> str_lower w = str_lower t)"
    by (simp add: str_contains_sublist str_lower_def sublist_map_iff)
  also have "\<dots> \<longleftrightarrow> (\<exists>w. sublist w s \<and> same_text t w)"
    by (metis str_lower_eq_iff)
  also have "\<dots> \<longleftrightarrow> occurs_in t s"
    by (auto simp: occurs_in_def list_ex_iff)
  finally show ?thesis .
qed

lemma occurs_in_empty: "occurs_in [] s"
  by (auto simp: occurs_in_def list_ex_iff same_text_def intro: bexI [of _ "[]"])

lemma species_matches_records:
  "\<forall>r\<in>set rs. text_field ''species'' r \<noteq> None \<Longrightarrow>
   species_matches rs t = Inr (filter (\<lambda>r. same_text (field_text ''species'' r) t) rs)"
  by (induction rs) (simp_all add: text_field_SomeE str_lower_eq_iff)

lemma name_matches_records:
  "\<forall>r\<in>set rs. text_field ''name'' r \<noteq> None \<Longrightarrow>
   name_matches rs t = Inr (filter (\<lambda>r. occurs_in t (field_text ''name'' r)) rs)"
  by (induction rs) (simp_all add: text_field_SomeE str_contains_lower_iff)


lemma set_first_occurrences [simp]: "set (first_occurrences xs) = set xs"
  by (induction xs) auto

lemma distinct_first_occurrences [simp]: "distinct (first_occurrences xs)"
  by (induction xs) auto

lemma first_occurrences_snoc:
  "first_occurrences (xs @ [k]) =
     (if k \<in> set xs then first_occurrences xs else first_occurrences xs @ [k])"
  by (induction xs) auto

lemma counter_incr_strings:
  "distinct F \<Longrightarrow>
   counter_incr (map (\<lambda>s. (JStr s, g s)) F) (JStr k) =
     (if k \<in> set F then map (\<lambda>s. (JStr s, if s = k then g s + 1 else g s)) F
      else map (\<lambda>s. (JStr s, g s)) F @ [(JStr k, 1)])"
  by (induction F) auto

lemma counter_incr_tally: "counter_incr (tally sts) (JStr k) = tally (sts @ [k])"
  by (auto simp: tally_def counter_incr_strings first_occurrences_snoc)

lemma count_statuses_snoc:
  "count_statuses c (rs @ [r]) =
     (case count_statuses c rs of
        Inl e \<Rightarrow> Inl e
      | Inr c' \<Rightarrow> (case subscript r ''status'' of Inl e \<Rightarrow> Inl e | Inr st \<Rightarrow> counter_add c' st))"
  by (induction rs arbitrary: c) (auto split: sum.splits)

lemma count_statuses_tally:
  "\<forall>r\<in>set rs. text_field ''status'' r \<noteq> None \<Longrightarrow>
   count_statuses [] rs = Inr (tally (statuses rs))"
proof (induction rs rule: rev_induct)
  case Nil
  show ?case by (simp add: tally_def statuses_def)
next
  case (snoc r rs)
  then show ?case
    by (simp add: count_statuses_snoc text_field_SomeE counter_add_def counter_incr_tally statuses_def)
qed

lemma sum_tally: "sum_list (map snd (tally sts)) = length sts"
proof -
  have "sum_list (map snd (tally sts)) = sum_list (map (count_list sts) (first_occurrences sts))"
    by (simp add: tally_def comp_def)
  also have "\<dots> = sum (count_list sts) (set sts)"
    by (simp add: sum_list_distinct_conv_sum_set)
  also have "\<dots> = length sts"
    by (rule sum_count_set) simp_all
  finally show ?thesis .
qed

lemma map_of_tally:
  "map_of (tally sts) (JStr s) = (if s \<in> set sts then Some (count_list sts s) else None)"
proof -
  have "map_of (map (\<lambda>s. (JStr s, count_list sts s)) F) (JStr s) =
          (if s \<in> set F then Some (count_list sts s) else None)" for F
    by (induction F) auto
  then show ?thesis by (simp add: tally_def)
qed

lemma show_characters_by_species_run:
  assumes "\<forall>r\<in>set rs. is_record r"
  shows "show_characters_by_species t \<lparr>data = JList rs\<rparr> =
           (\<lparr>data = JList rs\<rparr>,
            species_header t # map (record_line ''name'' ''status'') (species_subsequence rs t),
            Inr JNull)"
proof -
  have sp: "\<forall>r\<in>set rs. text_field ''species'' r \<noteq> None"
    using assms by (simp add: is_record_def)
  have ms: "species_matches rs t = Inr (species_subsequence rs t)"
    using species_matches_records [OF sp] by (simp add: species_subsequence_def)
  have "\<forall>r\<in>set (species_subsequence rs t). is_record r"
    using assms by (simp add: species_subsequence_def)
  then have lines: "pforeach (species_subsequence rs t) species_line s =
      (s, map (record_line ''name'' ''status'') (species_subsequence rs t), Inr ())"
    for s :: CharacterDataProcessor
    by (intro pforeach_emit) (simp add: species_line_record)
  show ?thesis
    by (simp add: show_characters_by_species_def prog_defs ms lines species_header_def)
qed

lemma find_characters_by_name_run:
  assumes "\<forall>r\<in>set rs. is_record r"
  shows "find_characters_by_name t \<lparr>data = JList rs\<rparr> =
           (\<lparr>data = JList rs\<rparr>,
            (if name_subsequence rs t = [] then [not_found_message t]
             else name_header t # map (record_line ''name'' ''species'') (name_subsequence rs t)),
            Inr JNull)"
proof -
  have nm: "\<forall>r\<in>set rs. text_field ''name'' r \<noteq> None"
    using assms by (simp add: is_record_def)
  have ms: "name_matches rs t = Inr (name_subsequence rs t)"
    using name_matches_records [OF nm] by (simp add: name_subsequence_def)
  have "\<forall>r\<in>set (name_subsequence rs t). is_record r"
    using assms by (simp add: name_subsequence_def)
  then have lines: "pforeach (name_subsequence rs t) name_line s =
      (s, map (record_line ''name'' ''species'') (name_subsequence rs t), Inr ())" for s :: CharacterDataProcessor
    by (intro pforeach_emit) (simp add: name_line_record)
  show ?thesis
    by (simp add: find_characters_by_name_def prog_defs ms lines name_header_def not_found_message_def)
qed

subsection \<open>The species filter\<close>




subsection \<open>The name search\<close>




text \<open>
  C10. For every non-empty list of records, the name search with the empty string as term
  matches every record: all the records are printed, in input order, after the header,
  and the not-found message is not printed.
\<close>

theorem find_characters_by_name_empty_term:
  assumes "rs \<noteq> []" and "\<forall>r\<in>set rs. is_record r"
  shows "name_matches rs [] = Inr rs
         \<and> find_characters_by_name [] \<lparr>data = JList rs\<rparr> =
             (\<lparr>data = JList rs\<rparr>, name_header [] # map (record_line ''name'' ''species'') rs, Inr JNull)
         \<and> not_found_message [] \<notin> set (fst (snd (find_characters_by_name [] \<lparr>data = JList rs\<rparr>)))"
proof -
  have all: "name_subsequence rs [] = rs"
    by (simp add: name_subsequence_def occurs_in_empty)
  have nm: "\<forall>r\<in>set rs. text_field ''name'' r \<noteq> None"
    using assms(2) by (simp add: is_record_def)
  have ms: "name_matches rs [] = Inr rs"
    using name_matches_records [OF nm, of "[]"] all by (simp add: name_subsequence_def)
  have run: "find_characters_by_name [] \<lparr>data = JList rs\<rparr> =
             (\<lparr>data = JList rs\<rparr>, name_header [] # map (record_line ''name'' ''species'') rs, Inr JNull)"
    using find_characters_by_name_run [OF assms(2), of "[]"] assms(1) by (simp add: all)
  have "not_found_message [] \<notin> set (name_header [] # map (record_line ''name'' ''species'') rs)"
    by (auto simp: not_found_message_def name_header_def record_line_def)
  with ms run show ?thesis by simp
qed

text \<open>On the fixture, the empty term lists the three characters.\<close>

theorem find_characters_by_name_empty_term_witness:
  "fixture \<noteq> [] \<and> is_record rick \<and> is_record googah \<and> is_record morty \<and>
   find_characters_by_name [] \<lparr>data = JList fixture\<rparr> =
     (\<lparr>data = JList fixture\<rparr>,
      [name_header [], record_line ''name'' ''species'' rick, record_line ''name'' ''species'' googah,
       record_line ''name'' ''species'' morty], Inr JNull)"
proof -
  have r: "\<forall>r\<in>set fixture. is_record r" by code_simp
  have n: "fixture \<noteq> []" by (simp add: fixture_def)
  show ?thesis
    using find_characters_by_name_empty_term [OF n r] r n by (simp add: fixture_def)
qed

subsection \<open>The status distribution\<close>

text \<open>
  C4. For every sequence \<open>R\<close> of records, the status distribution computed over \<open>R\<close> has
  the distinct statuses of \<open>R\<close> as its keys, each once, in the order in which they first
  occur in \<open>R\<close>; it maps each of them to its number of occurrences; and its counts add up
  to the length of \<open>R\<close>.
\<close>

theorem status_distribution_counts:
  assumes "\<forall>r\<in>set R. text_field ''status'' r \<noteq> None"
  shows "status_distribution (JList R) = Inr (tally (statuses R))
         \<and> map fst (tally (statuses R)) = map JStr (first_occurrences (statuses R))
         \<and> distinct (map fst (tally (statuses R)))
         \<and> (\<forall>s\<in>set (statuses R).
               map_of (tally (statuses R)) (JStr s) = Some (count_list (statuses R) s))
         \<and> fst ` set (tally (statuses R)) = JStr ` set (statuses R)
         \<and> sum_list (map snd (tally (statuses R))) = length R"
proof -
  have "status_distribution (JList R) = Inr (tally (statuses R))"
    using count_statuses_tally [OF assms] by (simp add: status_distribution_def)
  moreover have "map fst (tally (statuses R)) = map JStr (first_occurrences (statuses R))"
    by (simp add: tally_def comp_def)
  moreover have "distinct (map fst (tally (statuses R)))"
    by (simp add: tally_def comp_def distinct_map inj_on_def)
  moreover have "fst ` set (tally (statuses R)) = JStr ` set (statuses R)"
    by (force simp: tally_def)
  moreover have "sum_list (map snd (tally (statuses R))) = length R"
    by (simp add: sum_tally statuses_def)
  ultimately show ?thesis by (simp add: map_of_tally)
qed

text \<open>On the fixture: two characters alive, one of unknown status.\<close>

theorem status_distribution_counts_witness:
  "status_distribution (JList fixture) = Inr [(JStr ''Alive'', 2), (JStr ''unknown'', 1)]
   \<and> first_occurrences (statuses fixture) = [''Alive'', ''unknown'']
   \<and> sum_list (map snd (tally (statuses fixture))) = length fixture"
proof -
  have r: "\<forall>r\<in>set fixture. text_field ''status'' r \<noteq> None" by code_simp
  have t: "tally (statuses fixture) = [(JStr ''Alive'', 2), (JStr ''unknown'', 1)]"
    "first_occurrences (statuses fixture) = [''Alive'', ''unknown'']" by code_simp+
  show ?thesis
    using status_distribution_counts [OF r] by (simp add: t)
qed

subsection \<open>Facts about the report, the fetch, the cache and the run\<close>

lemma report_only_pret: "report_only (pret x)"
  by (simp add: report_only_def pret_def no_exit_def)

lemma report_only_pget: "report_only (pget f)"
  by (simp add: report_only_def pget_def no_exit_def)

lemma report_only_plift: "no_exit r \<Longrightarrow> report_only (plift r)"
  by (simp add: report_only_def plift_def)

lemma report_only_pemit: "\<not> is_redis ev \<Longrightarrow> report_only (pemit ev)"
  by (simp add: report_only_def pemit_def no_exit_def)

lemma report_only_pbind:
  assumes "report_only m" and "\<And>x. report_only (f x)"
  shows "report_only (pbind m f)"
  unfolding report_only_def
proof
  fix s
  obtain t1 r1 where m: "m s = (s, t1, r1)" "list_all (\<lambda>ev. \<not> is_redis ev) t1" "no_exit r1"
    using assms(1) unfolding report_only_def by (metis fst_conv snd_conv surj_pair)
  show "fst (pbind m f s) = s \<and> list_all (\<lambda>ev. \<not> is_redis ev) (fst (snd (pbind m f s))) \<and>
        no_exit (snd (snd (pbind m f s)))"
  proof (cases r1)
    case (Inl e)
    with m show ?thesis by (simp add: pbind_def no_exit_def)
  next
    case (Inr x)
    obtain t2 r2 where f: "f x s = (s, t2, r2)" "list_all (\<lambda>ev. \<not> is_redis ev) t2" "no_exit r2"
      using assms(2) [of x] unfolding report_only_def by (metis fst_conv snd_conv surj_pair)
    with m Inr show ?thesis by (simp add: pbind_def)
  qed
qed

lemma report_only_pforeach: "(\<And>x. report_only (f x)) \<Longrightarrow> report_only (pforeach xs f)"
  by (induction xs) (simp_all add: report_only_pret report_only_pbind)

lemma no_exit_subscript: "no_exit (subscript c k)"
  by (cases c) (simp_all add: no_exit_def split: option.splits)

lemma no_exit_py_lower: "no_exit (py_lower v)"
  by (cases v) (simp_all add: no_exit_def)

lemma no_exit_py_iter: "no_exit (py_iter v)"
  by (cases v) (simp_all add: no_exit_def)

lemma no_exit_counter_add: "no_exit (counter_add c k)"
  by (simp add: counter_add_def no_exit_def)

lemma no_exit_count_statuses: "no_exit (count_statuses c rs)"
proof (induction rs arbitrary: c)
  case Nil
  show ?case by (simp add: no_exit_def)
next
  case (Cons r rs)
  show ?case
    using no_exit_subscript [of r "''status''"] no_exit_counter_add Cons.IH
    by (auto simp: no_exit_def split: sum.splits)
qed

lemma no_exit_status_distribution: "no_exit (status_distribution d)"
  using no_exit_py_iter [of d] no_exit_count_statuses
  by (auto simp: status_distribution_def no_exit_def split: sum.splits)

lemma no_exit_species_matches: "no_exit (species_matches rs t)"
proof (induction rs)
  case Nil
  show ?case by (simp add: no_exit_def)
next
  case (Cons r rs)
  show ?case
    using no_exit_subscript [of r "''species''"] no_exit_py_lower Cons.IH
    by (auto simp: no_exit_def split: sum.splits)
qed

lemma no_exit_name_matches: "no_exit (name_matches rs t)"
proof (induction rs)
  case Nil
  show ?case by (simp add: no_exit_def)
next
  case (Cons r rs)
  show ?case
    using no_exit_subscript [of r "''name''"] no_exit_py_lower Cons.IH
    by (auto simp: no_exit_def split: sum.splits)
qed

lemmas report_only_intros =
  report_only_pbind report_only_pret report_only_pget report_only_plift report_only_pemit
  report_only_pforeach no_exit_subscript no_exit_py_iter no_exit_status_distribution
  no_exit_species_matches no_exit_name_matches

lemma report_only_plt_call: "\<not> is_redis ev \<Longrightarrow> report_only (plt_call plt ev)"
  unfolding plt_call_def
  by (cases "plt ev")
    (auto intro!: report_only_pbind report_only_pemit report_only_pret report_only_plift
       simp: no_exit_def)

lemma report_only_display: "report_only (display_status_distribution plt path)"
  unfolding display_status_distribution_def
  by (intro report_only_intros report_only_plt_call) (simp_all add: split_def report_only_plt_call)

lemma report_only_show: "report_only (show_characters_by_species t)"
  unfolding show_characters_by_species_def species_line_def
  by (intro report_only_intros) simp_all

lemma report_only_find: "report_only (find_characters_by_name t)"
  unfolding find_characters_by_name_def name_line_def
  by (intro report_only_intros) (auto intro!: report_only_intros)

lemma report_only_process_data: "report_only (process_data plt)"
  unfolding process_data_def
  by (intro report_only_pbind report_only_pret report_only_display report_only_show report_only_find)

lemma plt_call_returns: "plt ev = None \<Longrightarrow> plt_call plt ev s = (s, [ev], Inr ())"
  by (simp add: plt_call_def prog_defs)

lemma display_status_distribution_run:
  assumes "\<forall>r\<in>set rs. text_field ''status'' r \<noteq> None"
    and "\<forall>ev\<in>set (chart_events (tally (statuses rs)) path). plt ev = None"
  shows "display_status_distribution plt path \<lparr>data = JList rs\<rparr> =
           (\<lparr>data = JList rs\<rparr>, chart_events (tally (statuses rs)) path, Inr JNull)"
proof -
  let ?dist = "tally (statuses rs)"
  have d: "status_distribution (JList rs) = Inr ?dist"
    using count_statuses_tally [OF assms(1)] by (simp add: status_distribution_def)
  have ok: "plt_call plt ev s = (s, [ev], Inr ())"
    if "ev \<in> set (chart_events ?dist path)" for ev and s :: CharacterDataProcessor
    using that assms(2) by (simp add: plt_call_returns)
  have bars: "pforeach (enumerate 0 (map snd ?dist)) (\<lambda>(i, yval). plt_call plt (BarText i yval)) s =
      (s, map (\<lambda>(i, n). BarText i n) (enumerate 0 (map snd ?dist)), Inr ())"
    for s :: CharacterDataProcessor
  proof (intro pforeach_emit)
    fix x assume x: "x \<in> set (enumerate 0 (map snd ?dist))"
    obtain i n where "x = (i, n)" by (cases x)
    with x have "BarText i n \<in> set (chart_events ?dist path)"
      by (force simp: chart_events_def)
    then show "(case x of (i, yval) \<Rightarrow> plt_call plt (BarText i yval)) s =
        (s, [case x of (i, n) \<Rightarrow> BarText i n], Inr ())"
      using ok \<open>x = (i, n)\<close> by simp
  qed
  have fixed: "plt_call plt (Figure 10 6) s = (s, [Figure 10 6], Inr ())"
    "plt_call plt (Bar (map fst ?dist) (map snd ?dist) [''blue'', ''green'', ''red'']) s =
       (s, [Bar (map fst ?dist) (map snd ?dist) [''blue'', ''green'', ''red'']], Inr ())"
    "plt_call plt (Xlabel ''Character Status'' 14) s = (s, [Xlabel ''Character Status'' 14], Inr ())"
    "plt_call plt (Ylabel ''Count'' 14) s = (s, [Ylabel ''Count'' 14], Inr ())"
    "plt_call plt (Title ''Distribution of Character Statuses in Rick and Morty'' 16) s =
       (s, [Title ''Distribution of Character Statuses in Rick and Morty'' 16], Inr ())"
    "plt_call plt (Xticks 12) s = (s, [Xticks 12], Inr ())"
    "plt_call plt (Yticks 12) s = (s, [Yticks 12], Inr ())"
    "plt_call plt (Savefig path) s = (s, [Savefig path], Inr ())"
    "plt_call plt PltShow s = (s, [PltShow], Inr ())"
    for s :: CharacterDataProcessor
    by (rule ok, simp add: chart_events_def)+
  show ?thesis
    by (simp add: display_status_distribution_def pbind_def pret_def plift_def pget_def d bars
          fixed chart_events_def)
qed

lemma get_characters_run:
  "get_characters http a =
     (a, [HttpGet (endpoint_url a)],
      (case http (endpoint_url a) of
         None \<Rightarrow> Inl RequestException
       | Some r \<Rightarrow>
           if status_code r = 200 then
             (case json_body r of
                None \<Rightarrow> Inl JSONDecodeError
              | Some parsed \<Rightarrow> subscript parsed ''results'')
           else if 400 \<le> status_code r \<and> status_code r < 600 then Inl (HTTPError (status_code r))
           else Inr JNull))"
  by (simp add: get_characters_def requests_get_def prog_defs response_json_def
        raise_for_status_def split: option.splits sum.splits)

lemma no_exit_get_characters: "no_exit (snd (snd (get_characters http a)))"
  using no_exit_subscript
  by (auto simp: get_characters_run no_exit_def split: option.splits)

lemma ping_run:
  "ping h =
     (if reachable (redis_client h) then (h, [RedisPing], Inr JNull)
      else (h, [RedisPing, connection_diagnostic], Inl (SystemExit 1)))"
  by (simp add: ping_def ptry_def client_ping_def prog_defs connection_diagnostic_def)

lemma save_data_run:
  "save_data dumps k v h =
     (if reachable (redis_client h) then
        (h\<lparr>redis_client := (redis_client h)\<lparr>keyspace := (keyspace (redis_client h))(k \<mapsto> dumps v)\<rparr>\<rparr>,
         [RedisSet k (dumps v)], Inr JNull)
      else (h, [RedisSet k (dumps v)], Inl RedisConnectionError))"
  by (simp add: save_data_def client_set_def prog_defs pmodify_def)

lemma load_data_run:
  "load_data loads k h =
     (if reachable (redis_client h) then
        (h, [RedisGet k],
         (case keyspace (redis_client h) k of
            None \<Rightarrow> Inr JNull
          | Some text \<Rightarrow> if text \<noteq> [] then loads text else Inr JNull))
      else (h, [RedisGet k], Inl RedisConnectionError))"
  by (simp add: load_data_def client_get_def prog_defs split: option.splits)

lemma execute_run:
  "execute plt dumps http ex srv =
     (case snd (snd (get_characters http \<lparr>endpoint_url = api_endpoint ex\<rparr>)) of
        Inl e \<Rightarrow> (srv, [HttpGet (api_endpoint ex)], Inl e)
      | Inr d \<Rightarrow>
          if reachable srv then
            (srv\<lparr>keyspace := (keyspace srv)(redis_key ex \<mapsto> dumps d)\<rparr>,
             [HttpGet (api_endpoint ex), RedisPing, RedisSet (redis_key ex) (dumps d)]
               @ fst (snd (process_data plt \<lparr>data = d\<rparr>)),
             (case snd (snd (process_data plt \<lparr>data = d\<rparr>)) of Inl e \<Rightarrow> Inl e | Inr _ \<Rightarrow> Inr JNull))
          else
            (srv, [HttpGet (api_endpoint ex), RedisPing, connection_diagnostic],
             Inl (SystemExit 1)))"
proof -
  obtain r0 where g: "get_characters http \<lparr>endpoint_url = api_endpoint ex\<rparr> =
      (\<lparr>endpoint_url = api_endpoint ex\<rparr>, [HttpGet (api_endpoint ex)], r0)"
    by (simp add: get_characters_run)
  show ?thesis
    by (cases r0)
      (simp_all add: g execute_def pbind_def pcall_def RedisDataHandler_init_def on_redis_def
         pret_def ping_run
         save_data_run split: prod.splits sum.splits)
qed

subsection \<open>The fetch\<close>

text \<open>
  C2 (as the code has it). For every response, \<open>get_characters\<close> returns the value at key
  \<open>results\<close> of the parsed JSON body when the status code is 200 (a body that is not JSON,
  or has no such key, raises the parse or lookup error instead), and raises an \<open>HTTPError\<close>
  carrying the status code, returning nothing, when the status code is in 400 to 599.
\<close>

theorem get_characters_outcome:
  assumes "http (endpoint_url a) = Some r"
  shows "(status_code r = 200 \<longrightarrow>
            snd (snd (get_characters http a)) =
              (case json_body r of
                 None \<Rightarrow> Inl JSONDecodeError
               | Some parsed \<Rightarrow> subscript parsed ''results''))
         \<and> (400 \<le> status_code r \<and> status_code r < 600 \<longrightarrow>
              snd (snd (get_characters http a)) = Inl (HTTPError (status_code r)))"
  using assms by (simp add: get_characters_run)

text \<open>A 200 reply gives the fixture; a 404 reply raises \<open>HTTPError 404\<close>.\<close>

theorem get_characters_outcome_witness:
  "snd (snd (get_characters (replies 200) \<lparr>endpoint_url = api_url\<rparr>)) = Inr (JList fixture)
   \<and> snd (snd (get_characters (replies 404) \<lparr>endpoint_url = api_url\<rparr>)) = Inl (HTTPError 404)"
proof -
  have a: "replies 200 (endpoint_url \<lparr>endpoint_url = api_url\<rparr>) = Some \<lparr>status_code = 200, json_body = Some page\<rparr>"
    and b: "replies 404 (endpoint_url \<lparr>endpoint_url = api_url\<rparr>) = Some \<lparr>status_code = 404, json_body = Some page\<rparr>"
    by (simp_all add: replies_def)
  show ?thesis
    using get_characters_outcome [of "replies 200" "\<lparr>endpoint_url = api_url\<rparr>", OF a]
      get_characters_outcome [of "replies 404" "\<lparr>endpoint_url = api_url\<rparr>", OF b]
    by (simp add: page_def)
qed

text \<open>
  A 200 reply whose body is not JSON raises although the status is 2xx. A 201 reply with a
  good body does not give the results, and a 304 reply does not raise: in both cases the
  method returns \<^verbatim>\<open>None\<close>.
\<close>

theorem get_characters_counterexample:
  "snd (snd (get_characters garbled \<lparr>endpoint_url = api_url\<rparr>)) = Inl JSONDecodeError
   \<and> snd (snd (get_characters (replies 201) \<lparr>endpoint_url = api_url\<rparr>)) = Inr JNull
   \<and> snd (snd (get_characters (replies 201) \<lparr>endpoint_url = api_url\<rparr>))
       \<noteq> Inr (JList fixture)
   \<and> snd (snd (get_characters (replies 304) \<lparr>endpoint_url = api_url\<rparr>)) = Inr JNull
   \<and> snd (snd (get_characters (replies 304) \<lparr>endpoint_url = api_url\<rparr>))
       \<noteq> Inl (HTTPError 304)"
  by (simp add: get_characters_run replies_def garbled_def)

subsection \<open>The codec reads back what it writes\<close>

lemma of_char_consts [simp]:
  "of_char dq = (34::nat)" "of_char bs = (92::nat)"
  by (simp_all add: dq_def bs_def)

lemma skip_ws_nonspace: "\<not> is_space c \<Longrightarrow> skip_ws (c # s) = c # s"
  by (simp add: skip_ws_def)

lemma skip_ws_space [simp]: "skip_ws (CHR '' '' # s) = skip_ws s"
  by (simp add: skip_ws_def is_space_def)

lemma skip_ws_Nil [simp]: "skip_ws [] = []"
  by (simp add: skip_ws_def)

lemma char_of_of_char_nat: "char_of (of_char c :: nat) = c"
  by simp

lemma hex_val_hex_char: "d < 16 \<Longrightarrow> hex_val (hex_char d) = Some d"
  by (auto simp: hex_val_def hex_char_def Let_def)

lemma char_split: "char_of (16 * (of_char c div 16) + of_char c mod 16 :: nat) = c"
  by simp

lemma unescape_u_hex:
  "unescape_u (CHR ''0'') (CHR ''0'') (hex_char (of_char c div 16)) (hex_char (of_char c mod 16)) = Some c"
proof -
  have "(of_char c :: nat) < 256" by simp
  then have a: "(of_char c :: nat) div 16 < 16" by (simp add: less_mult_imp_div_less)
  have b: "(of_char c :: nat) mod 16 < 16" by simp
  have z: "hex_val (CHR ''0'') = Some 0" by (simp add: hex_val_def)
  show ?thesis
    by (simp add: unescape_u_def hex_val_hex_char [OF a] hex_val_hex_char [OF b] z)
qed

lemma char_of_eqI: "of_char c = (n::nat) \<Longrightarrow> char_of n = c"
  by auto

lemma dq_neq_bs [simp]: "dq \<noteq> bs" "bs \<noteq> dq"
  by (simp_all add: dq_def bs_def)

lemma unescape_simple_consts:
  "unescape_simple dq = Some dq"
  "unescape_simple bs = Some bs"
  "unescape_simple (CHR ''n'') = Some (char_of (10::nat))"
  "unescape_simple (CHR ''r'') = Some (char_of (13::nat))"
  "unescape_simple (CHR ''t'') = Some (char_of (9::nat))"
  "unescape_simple (CHR ''b'') = Some (char_of (8::nat))"
  "unescape_simple (CHR ''f'') = Some (char_of (12::nat))"
  by (simp_all add: unescape_simple_def dq_def bs_def)

lemma consts_neq_u [simp]:
  "dq \<noteq> CHR ''u''" "bs \<noteq> CHR ''u''"
  by (simp_all add: dq_def bs_def)

lemma read_string_escape_char:
  "read_string (escape_char c @ X) = map_option (\<lambda>(str, r). (c # str, r)) (read_string X)"
proof -
  let ?n = "of_char c :: nat"
  consider (dq) "c = dq" | (bs) "c = bs" | (n) "?n = 10" | (r) "?n = 13" | (t) "?n = 9"
    | (b) "?n = 8" | (f) "?n = 12"
    | (u) "c \<noteq> dq" "c \<noteq> bs" "?n \<noteq> 10" "?n \<noteq> 13" "?n \<noteq> 9" "?n \<noteq> 8" "?n \<noteq> 12" "?n < 32 \<or> 126 < ?n"
    | (plain) "c \<noteq> dq" "c \<noteq> bs" "32 \<le> ?n" "?n \<le> 126"
    by fastforce
  then show ?thesis
  proof cases
    case dq
    then show ?thesis by (simp add: escape_char_def unescape_simple_consts)
  next
    case bs
    then show ?thesis by (simp add: escape_char_def unescape_simple_consts)
  next
    case n
    then have "c \<noteq> dq" "c \<noteq> bs" by auto
    with n show ?thesis
      by (simp add: escape_char_def unescape_simple_consts char_of_eqI)
  next
    case r
    then have "c \<noteq> dq" "c \<noteq> bs" by auto
    with r show ?thesis
      by (simp add: escape_char_def unescape_simple_consts char_of_eqI)
  next
    case t
    then have "c \<noteq> dq" "c \<noteq> bs" by auto
    with t show ?thesis
      by (simp add: escape_char_def unescape_simple_consts char_of_eqI)
  next
    case b
    then have "c \<noteq> dq" "c \<noteq> bs" by auto
    with b show ?thesis
      by (simp add: escape_char_def unescape_simple_consts char_of_eqI)
  next
    case f
    then have "c \<noteq> dq" "c \<noteq> bs" by auto
    with f show ?thesis
      by (simp add: escape_char_def unescape_simple_consts char_of_eqI)
  next
    case u
    then show ?thesis
      by (simp add: escape_char_def Let_def unescape_u_hex)
  next
    case plain
    then show ?thesis
      by (auto simp: escape_char_def)
  qed
qed

lemma read_string_escaped:
  "read_string (concat (map escape_char s) @ dq # rest) = Some (s, rest)"
  by (induction s) (simp_all add: read_string_escape_char)

lemma read_string_quote:
  "json_quote s @ rest = dq # concat (map escape_char s) @ dq # rest"
  by (simp add: json_quote_def)

lemma digit_char_props:
  assumes "d < 10"
  shows "is_digit (digit_char d)" "digit_val (digit_char d) = d"
    "digit_char d = CHR ''0'' \<longleftrightarrow> d = 0"
  using assms
  by (auto simp: is_digit_def digit_val_def digit_char_def Let_def char_of_eq_iff
        take_bit_nat_eq_self)

lemma show_nat_small: "n < 10 \<Longrightarrow> show_nat n = [digit_char n]"
  by (subst show_nat.simps) simp

lemma show_nat_large: "\<not> n < 10 \<Longrightarrow> show_nat n = show_nat (n div 10) @ [digit_char (n mod 10)]"
  by (subst show_nat.simps) simp

lemma show_nat_digits: "c \<in> set (show_nat n) \<Longrightarrow> is_digit c"
proof (induction n arbitrary: c rule: show_nat.induct)
  case (1 n)
  show ?case
  proof (cases "n < 10")
    case True
    with "1.prems" show ?thesis
      by (simp add: show_nat_small digit_char_props)
  next
    case False
    with "1.prems" "1.IH" show ?thesis
      by (auto simp: show_nat_large digit_char_props)
  qed
qed

lemma show_nat_value: "foldl (\<lambda>a c. 10 * a + digit_val c) 0 (show_nat n) = n"
proof (induction n rule: show_nat.induct)
  case (1 n)
  show ?case
  proof (cases "n < 10")
    case True
    then show ?thesis by (simp add: show_nat_small digit_char_props)
  next
    case False
    with "1.IH" show ?thesis by (simp add: show_nat_large digit_char_props)
  qed
qed

lemma show_nat_head:
  "\<exists>d ds. show_nat n = d # ds \<and> is_digit d \<and> (d = CHR ''0'' \<longrightarrow> n = 0 \<and> ds = [])"
proof (induction n rule: show_nat.induct)
  case (1 n)
  show ?case
  proof (cases "n < 10")
    case True
    then show ?thesis by (simp add: show_nat_small digit_char_props)
  next
    case False
    then have "n div 10 \<noteq> 0" by simp
    with "1.IH" False show ?thesis by (auto simp: show_nat_large)
  qed
qed

lemma read_nat_digits:
  "\<forall>c\<in>set ds. is_digit c \<Longrightarrow>
   read_nat acc (ds @ rest) = read_nat (foldl (\<lambda>a c. 10 * a + digit_val c) acc ds) rest"
  by (induction ds arbitrary: acc) simp_all

lemma delim_not_digit: "delim rest \<Longrightarrow> read_nat acc rest = (acc, rest)"
  by (cases rest) (auto simp: delim_def is_digit_def)

lemma read_nat_show_nat: "delim rest \<Longrightarrow> read_nat 0 (show_nat n @ rest) = (n, rest)"
proof -
  assume d: "delim rest"
  have "\<forall>c\<in>set (show_nat n). is_digit c"
    using show_nat_digits by blast
  then show ?thesis
    by (simp add: read_nat_digits show_nat_value delim_not_digit [OF d])
qed

lemma is_digit_not_minus: "is_digit d \<Longrightarrow> d \<noteq> CHR ''-''"
  by (auto simp: is_digit_def)

lemma read_int_nat:
  assumes "delim rest"
  shows "read_int (show_nat n @ rest) = Some (JInt (int n), rest)"
proof -
  obtain d ds where s: "show_nat n = d # ds" "is_digit d" "d = CHR ''0'' \<longrightarrow> n = 0 \<and> ds = []"
    using show_nat_head by blast
  have r: "read_nat 0 (d # ds @ rest) = (n, rest)"
    using read_nat_show_nat [OF assms, of n] s(1) by simp
  show ?thesis
    using s r assms is_digit_not_minus [OF s(2)]
    by (cases rest) (auto simp: read_int_def delim_def simp del: read_nat.simps)
qed

lemma read_int_neg:
  assumes "delim rest" and "n \<noteq> 0"
  shows "read_int (CHR ''-'' # show_nat n @ rest) = Some (JInt (- int n), rest)"
proof -
  obtain d ds where s: "show_nat n = d # ds" "is_digit d" "d = CHR ''0'' \<longrightarrow> n = 0 \<and> ds = []"
    using show_nat_head by blast
  have r: "read_nat 0 (d # ds @ rest) = (n, rest)"
    using read_nat_show_nat [OF assms(1), of n] s(1) by simp
  show ?thesis
    using s r assms
    by (cases rest) (auto simp: read_int_def delim_def simp del: read_nat.simps)
qed

lemma read_int_show_int:
  "delim rest \<Longrightarrow> read_int (show_int i @ rest) = Some (JInt i, rest)"
  by (cases "i < 0") (simp_all add: show_int_def read_int_neg read_int_nat)

lemma is_digit_starter: "is_digit c \<Longrightarrow> starter c"
  by (auto simp: is_digit_def starter_def is_space_def Let_def)

lemma show_int_head: "\<exists>c cs. show_int i = c # cs \<and> starter c"
proof (cases "i < 0")
  case True
  then show ?thesis by (simp add: show_int_def starter_def is_space_def)
next
  case False
  obtain d ds where "show_nat (nat i) = d # ds" "is_digit d"
    using show_nat_head by blast
  with False show ?thesis by (simp add: show_int_def is_digit_starter)
qed

lemma dumps_head: "\<exists>c cs. json_dumps v = c # cs \<and> starter c"
proof (cases v)
  case (JInt i)
  then show ?thesis using show_int_head by simp
next
  case (JStr s)
  then show ?thesis by (simp add: json_quote_def starter_def is_space_def dq_def)
qed (simp_all add: starter_def is_space_def)

lemma read_value_space: "read_value fuel (CHR '' '' # s) = read_value fuel s"
  by (cases fuel) simp_all

lemma read_elems_space: "read_elems fuel acc (CHR '' '' # s) = read_elems fuel acc s"
  by (cases fuel) (simp_all add: read_value_space)

lemma read_members_space: "read_members fuel acc (CHR '' '' # s) = read_members fuel acc s"
  by (cases fuel) simp_all

lemma join_comma_Cons: "ys \<noteq> [] \<Longrightarrow> join_comma (y # ys) = y @ '', '' @ join_comma ys"
  by (cases ys) simp_all

lemma skip_ws_punct [simp]:
  "skip_ws (CHR '','' # s) = CHR '','' # s"
  "skip_ws (CHR '']'' # s) = CHR '']'' # s"
  "skip_ws (CHR ''}'' # s) = CHR ''}'' # s"
  "skip_ws (CHR '':'' # s) = CHR '':'' # s"
  "skip_ws (dq # s) = dq # s"
  by (simp_all add: skip_ws_def is_space_def dq_def)

lemma delim_punct [simp]:
  "delim (CHR '','' # s)" "delim (CHR '']'' # s)" "delim (CHR ''}'' # s)" "delim []"
  by (simp_all add: delim_def)

lemma read_elems_join:
  assumes "xs \<noteq> []"
    and "\<And>x fuel rest. x \<in> set xs \<Longrightarrow> delim rest \<Longrightarrow> length (json_dumps x) \<le> fuel \<Longrightarrow>
           read_value fuel (json_dumps x @ rest) = Some (x, rest)"
    and "length (join_comma (map json_dumps xs)) < fuel"
  shows "read_elems fuel acc (join_comma (map json_dumps xs) @ CHR '']'' # rest) =
           Some (JList (acc @ xs), rest)"
  using assms
proof (induction xs arbitrary: fuel acc rule: list_nonempty_induct)
  case (single x)
  then obtain f where f: "fuel = Suc f" "length (json_dumps x) \<le> f"
    by (cases fuel) auto
  have "read_value f (json_dumps x @ CHR '']'' # rest) = Some (x, CHR '']'' # rest)"
    using single(1) [of x] f by simp
  with f show ?case by simp
next
  case (cons x xs)
  let ?J = "join_comma (map json_dumps xs)"
  have j: "join_comma (json_dumps x # map json_dumps xs) = json_dumps x @ '', '' @ ?J"
    using cons.hyps by (simp add: join_comma_Cons)
  have "length (json_dumps x) + 2 + length ?J < fuel"
    using cons.prems(2) by (simp add: j)
  then obtain f where f: "fuel = Suc f" "length (json_dumps x) \<le> f" "length ?J < f"
    by (cases fuel) auto
  have v: "read_value f (json_dumps x @ CHR '','' # CHR '' '' # ?J @ CHR '']'' # rest) =
      Some (x, CHR '','' # CHR '' '' # ?J @ CHR '']'' # rest)"
    using cons.prems(1) [of x] f by simp
  have rest: "read_elems f (acc @ [x]) (?J @ CHR '']'' # rest) = Some (JList ((acc @ [x]) @ xs), rest)"
    using cons.IH [of f "acc @ [x]"] cons.prems(1) f by simp
  show ?case
    using f v rest by (simp add: j read_elems_space)
qed

lemma dict_set_fresh: "k \<notin> fst ` set acc \<Longrightarrow> dict_set acc k v = acc @ [(k, v)]"
  by (induction acc) auto

lemma read_members_join:
  assumes "kvs \<noteq> []"
    and "\<And>kv fuel rest. kv \<in> set kvs \<Longrightarrow> delim rest \<Longrightarrow> length (json_dumps (snd kv)) \<le> fuel \<Longrightarrow>
           read_value fuel (json_dumps (snd kv) @ rest) = Some (snd kv, rest)"
    and "length (join_comma (map member_text kvs)) < fuel"
    and "distinct (map fst (acc @ kvs))"
  shows "read_members fuel acc (join_comma (map member_text kvs) @ CHR ''}'' # rest) =
           Some (JDict (acc @ kvs), rest)"
  using assms
proof (induction kvs arbitrary: fuel acc rule: list_nonempty_induct)
  case (single kv)
  obtain k v where kv: "kv = (k, v)" by (cases kv)
  from single(2) obtain f where f: "fuel = Suc f" "length (json_dumps v) \<le> f"
    by (cases fuel) (auto simp: member_text_def kv)
  have val: "read_value f (json_dumps v @ CHR ''}'' # rest) = Some (v, CHR ''}'' # rest)"
    using single(1) [of kv] f kv by simp
  have fresh: "dict_set acc k v = acc @ [(k, v)]"
    using single(3) kv by (intro dict_set_fresh) auto
  show ?case
    using f val fresh
    by (simp add: kv member_text_def json_quote_def read_string_escaped read_value_space)
next
  case (cons kv kvs)
  obtain k v where kv: "kv = (k, v)" by (cases kv)
  let ?J = "join_comma (map member_text kvs)"
  have mt: "member_text (k, v) = dq # concat (map escape_char k) @ dq # CHR '':'' # CHR '' '' # json_dumps v"
    by (simp add: member_text_def json_quote_def)
  have j: "join_comma (y # map member_text kvs) = y @ '', '' @ ?J" for y
    using cons.hyps by (simp add: join_comma_Cons)
  have "length (member_text (k, v)) + 2 + length ?J < fuel"
    using cons.prems(2) by (simp add: j kv)
  then obtain f where f: "fuel = Suc f" "length (json_dumps v) \<le> f" "length ?J < f"
    by (cases fuel) (auto simp: mt)
  have val: "read_value f (json_dumps v @ CHR '','' # CHR '' '' # ?J @ CHR ''}'' # rest) =
      Some (v, CHR '','' # CHR '' '' # ?J @ CHR ''}'' # rest)"
    using cons.prems(1) [of kv] f kv by simp
  have fresh: "dict_set acc k v = acc @ [(k, v)]"
    using cons.prems(3) kv by (intro dict_set_fresh) auto
  have rest: "read_members f (acc @ [(k, v)]) (?J @ CHR ''}'' # rest) =
      Some (JDict ((acc @ [(k, v)]) @ kvs), rest)"
    using cons.IH [of f "acc @ [(k, v)]"] cons.prems f kv by simp
  show ?case
    using f val fresh rest
    by (simp add: kv j mt read_string_escaped read_value_space read_members_space)
qed

lemma skip_ws_starter: "starter c \<Longrightarrow> skip_ws (c # s) = c # s"
  by (simp add: starter_def skip_ws_nonspace)

lemma skip_ws_open [simp]:
  "skip_ws (CHR ''['' # s) = CHR ''['' # s"
  "skip_ws (CHR ''{'' # s) = CHR ''{'' # s"
  by (simp_all add: skip_ws_def is_space_def)

lemma dq_neq_open [simp]:
  "CHR ''['' \<noteq> dq" "CHR ''{'' \<noteq> dq" "dq \<noteq> CHR '']''" "dq \<noteq> CHR ''}''"
  by (simp_all add: dq_def)

lemma read_value_dumps:
  "wf_json v \<Longrightarrow> delim rest \<Longrightarrow> length (json_dumps v) \<le> fuel \<Longrightarrow>
   read_value fuel (json_dumps v @ rest) = Some (v, rest)"
proof (induction v arbitrary: fuel rest)
  case JNull
  then obtain f where "fuel = Suc f" by (cases fuel) auto
  then show ?case by (simp add: skip_ws_def is_space_def dq_def)
next
  case (JBool b)
  then obtain f where "fuel = Suc f" by (cases fuel) (auto split: if_splits)
  then show ?case by (simp add: skip_ws_def is_space_def dq_def)
next
  case (JInt i)
  obtain c cs where h: "show_int i = c # cs" "starter c"
    using show_int_head by blast
  have d: "is_digit c \<or> c = CHR ''-''"
  proof (cases "i < 0")
    case True
    with h show ?thesis by (simp add: show_int_def)
  next
    case False
    obtain d ds where "show_nat (nat i) = d # ds" "is_digit d"
      using show_nat_head by blast
    with False h show ?thesis by (simp add: show_int_def)
  qed
  then have ne: "c \<noteq> dq" "c \<noteq> CHR ''[''" "c \<noteq> CHR ''{''" "c \<noteq> CHR ''n''" "c \<noteq> CHR ''t''"
    "c \<noteq> CHR ''f''"
    by (auto simp: is_digit_def dq_def Let_def)
  from JInt h obtain f where f: "fuel = Suc f" by (cases fuel) auto
  have "read_int (c # cs @ rest) = Some (JInt i, rest)"
    using read_int_show_int [OF JInt(2), of i] h by simp
  with f h ne show ?case by (simp add: skip_ws_starter)
next
  case (JStr s)
  then obtain f where "fuel = Suc f" by (cases fuel) (auto simp: json_quote_def)
  then show ?case by (simp add: json_quote_def read_string_escaped)
next
  case (JList xs)
  from JList(4) obtain f where f: "fuel = Suc f" by (cases fuel) auto
  show ?case
  proof (cases "xs = []")
    case True
    with f show ?thesis by (simp add: skip_ws_def is_space_def dq_def)
  next
    case False
    obtain c cs where h: "join_comma (map json_dumps xs) = c # cs" "starter c"
    proof -
      obtain y ys where xs: "xs = y # ys" using False by (cases xs) auto
      obtain c cs where "json_dumps y = c # cs" "starter c" using dumps_head by blast
      then have "join_comma (map json_dumps xs) = c # cs @ (if ys = [] then [] else '', '' @ join_comma (map json_dumps ys)) \<and> starter c"
        by (cases ys) (simp_all add: xs)
      then show ?thesis using that by blast
    qed
    have ih: "read_value fuel' (json_dumps x @ rest') = Some (x, rest')"
      if "x \<in> set xs" "delim rest'" "length (json_dumps x) \<le> fuel'" for x fuel' rest'
      using JList(1) [OF that(1) _ that(2,3)] JList(2) that(1) by (simp add: list_all_iff)
    have len: "length (join_comma (map json_dumps xs)) < f"
      using JList(4) f by simp
    have el: "read_elems f [] (join_comma (map json_dumps xs) @ CHR '']'' # rest) = Some (JList xs, rest)"
      using read_elems_join [OF False ih len, of "[]" rest] by simp
    have c: "c \<noteq> CHR '']''" using h(2) by (simp add: starter_def)
    show ?thesis
      using f el h c
      by (simp add: skip_ws_starter)
  qed
next
  case (JDict kvs)
  from JDict(4) obtain f where f: "fuel = Suc f" by (cases fuel) auto
  have "member_text = (\<lambda>kv. json_quote (fst kv) @ '': '' @ json_dumps (snd kv))"
    by (rule ext) (simp add: member_text_def)
  then have mtx: "json_dumps (JDict kvs) = CHR ''{'' # join_comma (map member_text kvs) @ ''}''"
    by simp
  show ?case
  proof (cases "kvs = []")
    case True
    with f show ?thesis unfolding mtx by (simp add: skip_ws_def is_space_def dq_def)
  next
    case False
    obtain cs where h: "join_comma (map member_text kvs) = dq # cs"
    proof -
      obtain y ys where xs: "kvs = y # ys" using False by (cases kvs) auto
      have "join_comma (map member_text kvs) =
          dq # (concat (map escape_char (fst y)) @ [dq] @ '': '' @ json_dumps (snd y))
             @ (if ys = [] then [] else '', '' @ join_comma (map member_text ys))"
        by (cases ys) (simp_all add: xs member_text_def json_quote_def)
      then show ?thesis using that by blast
    qed
    have ih: "read_value fuel' (json_dumps (snd kv) @ rest') = Some (snd kv, rest')"
      if "kv \<in> set kvs" "delim rest'" "length (json_dumps (snd kv)) \<le> fuel'" for kv fuel' rest'
    proof -
      have "wf_json (snd kv)" using JDict(2) that(1) by (simp add: list_all_iff)
      moreover have "snd kv \<in> Basic_BNFs.snds kv" by (cases kv) simp
      ultimately show ?thesis using JDict(1) [OF that(1) _ _ that(2,3)] by blast
    qed
    have len: "length (join_comma (map member_text kvs)) < f"
      using JDict(4) f unfolding mtx by simp
    have dist: "distinct (map fst ([] @ kvs))" using JDict(2) by simp
    have el: "read_members f [] (join_comma (map member_text kvs) @ CHR ''}'' # rest) = Some (JDict kvs, rest)"
      using read_members_join [OF False ih len dist, of rest] by simp
    have c: "dq \<noteq> CHR ''}''" by (simp add: dq_def)
    show ?thesis
      using f el h c
      unfolding mtx by simp
  qed
qed

lemma json_loads_dumps: "wf_json v \<Longrightarrow> json_loads (json_dumps v) = Inr v"
  using read_value_dumps [of v "[]" "Suc (length (json_dumps v))"]
  by (simp add: json_loads_def)

lemma json_dumps_nonempty: "json_dumps v \<noteq> []"
  using dumps_head [of v] by auto

subsection \<open>The cache\<close>

text \<open>
  C5. For every value \<open>v\<close> and every key \<open>k\<close>, on a reachable store, \<open>save_data k v\<close>
  succeeds and \<open>load_data k\<close> right after it returns \<open>v\<close> itself: the same records with the
  same fields in the same order. This holds for any codec that writes \<open>v\<close> as a non-empty
  text and reads that text back as \<open>v\<close>, and the codec above does so for every value.
\<close>

theorem load_after_save:
  assumes "reachable (redis_client h)"
  shows "(loads (dumps v) = Inr v \<and> dumps v \<noteq> [] \<longrightarrow>
            snd (snd (save_data dumps k v h)) = Inr JNull
            \<and> snd (snd (load_data loads k (fst (save_data dumps k v h)))) = Inr v)
         \<and> (wf_json v \<longrightarrow>
            snd (snd (save_data json_dumps k v h)) = Inr JNull
            \<and> snd (snd (load_data json_loads k (fst (save_data json_dumps k v h)))) = Inr v)"
  using assms
  by (simp add: save_data_run load_data_run json_loads_dumps json_dumps_nonempty)

text \<open>The fixture, saved and loaded with the codec above.\<close>

theorem load_after_save_witness:
  "snd (snd (load_data json_loads ''rickandmorty:characters''
       (fst (save_data json_dumps ''rickandmorty:characters'' (JList fixture)
          \<lparr>redis_client = redis_up\<rparr>)))) = Inr (JList fixture)"
proof -
  have up: "reachable (redis_client \<lparr>redis_client = redis_up\<rparr>)"
    by (simp add: redis_up_def)
  have wf: "wf_json (JList fixture)"
    by code_simp
  show ?thesis
    using load_after_save [OF up, of json_loads json_dumps "JList fixture"
        "''rickandmorty:characters''", THEN conjunct2] wf
    by simp
qed

text \<open>
  C6. For every run in which the records were fetched and the store is unreachable when
  the handler is constructed: the diagnostic is printed, the run ends with \<open>SystemExit 1\<close>
  (exit status 1), nothing is written to the store and no report is made. This is the
  only error handled inside the program: a run ends by \<open>SystemExit\<close> only in this way, and
  an error raised by the fetch or by the report reaches the top as it was raised.
\<close>

theorem unreachable_store_exits:
  assumes "snd (snd (get_characters http \<lparr>endpoint_url = api_endpoint ex\<rparr>)) = Inr d"
    and "\<not> reachable srv"
  shows "RedisDataHandler_init srv = (srv, [RedisPing, connection_diagnostic], Inl (SystemExit 1))
         \<and> execute plt dumps http ex srv =
           (srv, [HttpGet (api_endpoint ex), RedisPing, connection_diagnostic], Inl (SystemExit 1))
         \<and> exit_status (snd (snd (execute plt dumps http ex srv))) = 1
         \<and> (\<forall>http' srv' n. snd (snd (execute plt dumps http' ex srv')) = Inl (SystemExit n) \<longrightarrow>
               \<not> reachable srv' \<and> n = 1)
         \<and> (\<forall>http' srv' e. snd (snd (get_characters http' \<lparr>endpoint_url = api_endpoint ex\<rparr>)) = Inl e \<longrightarrow>
               execute plt dumps http' ex srv' = (srv', [HttpGet (api_endpoint ex)], Inl e))
         \<and> (\<forall>http' srv' d' e.
               snd (snd (get_characters http' \<lparr>endpoint_url = api_endpoint ex\<rparr>)) = Inr d' \<and>
               reachable srv' \<and> snd (snd (process_data plt \<lparr>data = d'\<rparr>)) = Inl e \<longrightarrow>
               snd (snd (execute plt dumps http' ex srv')) = Inl e)"
proof -
  have main: "execute plt dumps http ex srv =
           (srv, [HttpGet (api_endpoint ex), RedisPing, connection_diagnostic], Inl (SystemExit 1))"
    using assms by (simp add: execute_run)
  have only: "\<not> reachable srv' \<and> n = 1"
    if "snd (snd (execute plt dumps http' ex srv')) = Inl (SystemExit n)" for http' srv' n
  proof -
    have a: "no_exit (snd (snd (get_characters http' \<lparr>endpoint_url = api_endpoint ex\<rparr>)))"
      by (rule no_exit_get_characters)
    have b: "no_exit (snd (snd (process_data plt \<lparr>data = d'\<rparr>)))" for d'
      using report_only_process_data by (simp add: report_only_def)
    show ?thesis
      using that a b
      by (auto simp: execute_run no_exit_def split: sum.splits if_splits)
  qed
  have fetch: "execute plt dumps http' ex srv' = (srv', [HttpGet (api_endpoint ex)], Inl e)"
    if "snd (snd (get_characters http' \<lparr>endpoint_url = api_endpoint ex\<rparr>)) = Inl e" for http' srv' e
    using that by (simp add: execute_run)
  have report: "snd (snd (execute plt dumps http' ex srv')) = Inl e"
    if "snd (snd (get_characters http' \<lparr>endpoint_url = api_endpoint ex\<rparr>)) = Inr d'"
      "reachable srv'" "snd (snd (process_data plt \<lparr>data = d'\<rparr>)) = Inl e" for http' srv' d' e
    using that by (simp add: execute_run)
  have init: "RedisDataHandler_init srv =
      (srv, [RedisPing, connection_diagnostic], Inl (SystemExit 1))"
    using assms(2) by (simp add: RedisDataHandler_init_def on_redis_def ping_run)
  show ?thesis
    using init main only fetch report by (simp add: exit_status_def)
qed

text \<open>The main program against a server that is down.\<close>

theorem unreachable_store_exits_witness:
  "execute plt_ok json_dumps (replies 200) demo_executor redis_down =
     (redis_down, [HttpGet api_url, RedisPing, connection_diagnostic], Inl (SystemExit 1))
   \<and> exit_status (snd (snd (execute plt_ok json_dumps (replies 200) demo_executor redis_down))) = 1"
proof -
  have f: "snd (snd (get_characters (replies 200) \<lparr>endpoint_url = api_endpoint demo_executor\<rparr>)) =
      Inr (JList fixture)"
    by (simp add: get_characters_run replies_def demo_executor_def page_def)
  have d: "\<not> reachable redis_down"
    by (simp add: redis_down_def)
  note w = unreachable_store_exits [OF f d, of plt_ok json_dumps]
  show ?thesis
    using w [THEN conjunct2, THEN conjunct1] w [THEN conjunct2, THEN conjunct2, THEN conjunct1]
    by (simp add: demo_executor_def)
qed

subsection \<open>The run and the report\<close>

text \<open>
  C7. For every run that reaches the report, the processor is constructed over exactly
  the value fetched in that run: whatever the codec writes to the cache, the report is
  \<open>process_data\<close> on the fetched value, it reads nothing back from Redis, and the processor
  still holds that value afterwards.
\<close>

theorem report_consumes_fetched_records:
  assumes "snd (snd (get_characters http \<lparr>endpoint_url = api_endpoint ex\<rparr>)) = Inr d"
    and "reachable srv"
  shows "execute plt dumps http ex srv =
           (srv\<lparr>keyspace := (keyspace srv)(redis_key ex \<mapsto> dumps d)\<rparr>,
            [HttpGet (api_endpoint ex), RedisPing, RedisSet (redis_key ex) (dumps d)]
              @ fst (snd (process_data plt \<lparr>data = d\<rparr>)),
            (case snd (snd (process_data plt \<lparr>data = d\<rparr>)) of Inl e \<Rightarrow> Inl e | Inr _ \<Rightarrow> Inr JNull))
         \<and> list_all (\<lambda>ev. \<not> is_redis ev) (fst (snd (process_data plt \<lparr>data = d\<rparr>)))
         \<and> data (fst (process_data plt \<lparr>data = d\<rparr>)) = d"
  using assms report_only_process_data
  by (simp add: execute_run report_only_def)

text \<open>
  The main program against a server that is up: the same report with the codec above and
  with a codec that writes \<^verbatim>\<open>null\<close> for everything.
\<close>

theorem report_consumes_fetched_records_witness:
  "fst (snd (execute plt_ok json_dumps (replies 200) demo_executor redis_up)) =
     [HttpGet api_url, RedisPing,
      RedisSet ''rickandmorty:characters'' (json_dumps (JList fixture))]
     @ fst (snd (process_data plt_ok \<lparr>data = JList fixture\<rparr>))
   \<and> fst (snd (execute plt_ok (\<lambda>v. ''null'') (replies 200) demo_executor redis_up)) =
     [HttpGet api_url, RedisPing, RedisSet ''rickandmorty:characters'' ''null'']
     @ fst (snd (process_data plt_ok \<lparr>data = JList fixture\<rparr>))"
proof -
  have f: "snd (snd (get_characters (replies 200) \<lparr>endpoint_url = api_endpoint demo_executor\<rparr>)) =
      Inr (JList fixture)"
    by (simp add: get_characters_run replies_def demo_executor_def page_def)
  have u: "reachable redis_up"
    by (simp add: redis_up_def)
  show ?thesis
    using report_consumes_fetched_records [OF f u, of plt_ok json_dumps]
      report_consumes_fetched_records [OF f u, of plt_ok "\<lambda>v. ''null''"]
    by (simp add: demo_executor_def)
qed

text \<open>
  C8 (as the code has it). For every list of records, \<open>process_data\<close> is three operations
  and nothing else, in this order: the status distribution drawn and saved as a chart
  under the default file name, the species filter with target \<open>Human\<close>, the name search
  with term \<open>Morty\<close>. When no call into the plotting library raises, each runs to its end.
  When the first operation raises, the report ends there with that exception: what was
  done is what the first operation did, and neither the filter nor the search runs.
\<close>

theorem process_data_three_operations:
  assumes "\<forall>r\<in>set rs. is_record r"
  shows "((\<forall>ev\<in>set (chart_events (tally (statuses rs)) ''status_distribution.png''). plt ev = None) \<longrightarrow>
           process_data plt \<lparr>data = JList rs\<rparr> =
             (\<lparr>data = JList rs\<rparr>,
              fst (snd (display_status_distribution plt ''status_distribution.png''
                          \<lparr>data = JList rs\<rparr>))
              @ fst (snd (show_characters_by_species ''Human'' \<lparr>data = JList rs\<rparr>))
              @ fst (snd (find_characters_by_name ''Morty'' \<lparr>data = JList rs\<rparr>)),
              Inr JNull)
           \<and> display_status_distribution plt ''status_distribution.png'' \<lparr>data = JList rs\<rparr> =
               (\<lparr>data = JList rs\<rparr>,
                chart_events (tally (statuses rs)) ''status_distribution.png'', Inr JNull)
           \<and> show_characters_by_species ''Human'' \<lparr>data = JList rs\<rparr> =
               (\<lparr>data = JList rs\<rparr>,
                species_header ''Human''
                  # map (record_line ''name'' ''status'') (species_subsequence rs ''Human''),
                Inr JNull)
           \<and> find_characters_by_name ''Morty'' \<lparr>data = JList rs\<rparr> =
               (\<lparr>data = JList rs\<rparr>,
                (if name_subsequence rs ''Morty'' = [] then [not_found_message ''Morty'']
                 else name_header ''Morty''
                        # map (record_line ''name'' ''species'') (name_subsequence rs ''Morty'')),
                Inr JNull))
         \<and> (\<forall>e. snd (snd (display_status_distribution plt ''status_distribution.png''
                             \<lparr>data = JList rs\<rparr>)) = Inl e \<longrightarrow>
              process_data plt \<lparr>data = JList rs\<rparr> =
                (\<lparr>data = JList rs\<rparr>,
                 fst (snd (display_status_distribution plt ''status_distribution.png''
                             \<lparr>data = JList rs\<rparr>)),
                 Inl e))"
proof -
  let ?p = "\<lparr>data = JList rs\<rparr>"
  have st: "\<forall>r\<in>set rs. text_field ''status'' r \<noteq> None"
    using assms by (simp add: is_record_def)
  note runs = show_characters_by_species_run [OF assms, of "''Human''"]
    find_characters_by_name_run [OF assms, of "''Morty''"]
  have good: "process_data plt ?p =
             (?p,
              fst (snd (display_status_distribution plt ''status_distribution.png'' ?p))
              @ fst (snd (show_characters_by_species ''Human'' ?p))
              @ fst (snd (find_characters_by_name ''Morty'' ?p)),
              Inr JNull)
           \<and> display_status_distribution plt ''status_distribution.png'' ?p =
               (?p, chart_events (tally (statuses rs)) ''status_distribution.png'', Inr JNull)"
    if ok: "\<forall>ev\<in>set (chart_events (tally (statuses rs)) ''status_distribution.png''). plt ev = None"
  proof -
    note d = display_status_distribution_run [OF st ok]
    have "process_data plt ?p =
             (?p,
              fst (snd (display_status_distribution plt ''status_distribution.png'' ?p))
              @ fst (snd (show_characters_by_species ''Human'' ?p))
              @ fst (snd (find_characters_by_name ''Morty'' ?p)),
              Inr JNull)"
      by (simp add: process_data_def pbind_def pret_def d runs)
    with d show ?thesis by simp
  qed
  have bad: "process_data plt ?p =
      (?p, fst (snd (display_status_distribution plt ''status_distribution.png'' ?p)), Inl e)"
    if e: "snd (snd (display_status_distribution plt ''status_distribution.png'' ?p)) = Inl e" for e
  proof -
    have "fst (display_status_distribution plt ''status_distribution.png'' ?p) = ?p"
      using report_only_display [of plt "''status_distribution.png''"]
      by (simp add: report_only_def)
    with e obtain t where
      "display_status_distribution plt ''status_distribution.png'' ?p = (?p, t, Inl e)"
      by (metis prod.collapse)
    then show ?thesis
      by (simp add: process_data_def pbind_def)
  qed
  show ?thesis
    using good bad runs by blast
qed

text \<open>The report on the fixture, with a plotting library that does not raise.\<close>

theorem process_data_three_operations_witness:
  "process_data plt_ok \<lparr>data = JList fixture\<rparr> =
     (\<lparr>data = JList fixture\<rparr>,
      chart_events [(JStr ''Alive'', 2), (JStr ''unknown'', 1)] ''status_distribution.png''
      @ [species_header ''Human'', record_line ''name'' ''status'' rick,
         record_line ''name'' ''status'' morty]
      @ [name_header ''Morty'', record_line ''name'' ''species'' morty],
      Inr JNull)"
proof -
  have r: "\<forall>r\<in>set fixture. is_record r" by code_simp
  have c: "tally (statuses fixture) = [(JStr ''Alive'', 2), (JStr ''unknown'', 1)]"
    "species_subsequence fixture ''Human'' = [rick, morty]"
    "name_subsequence fixture ''Morty'' = [morty]"
    by code_simp+
  have ok: "\<forall>ev\<in>set (chart_events (tally (statuses fixture)) ''status_distribution.png'').
      plt_ok ev = None"
    by (simp add: plt_ok_def)
  note w = process_data_three_operations [OF r, of plt_ok, THEN conjunct1, THEN mp, OF ok]
  show ?thesis
    using w [THEN conjunct1] w [THEN conjunct2]
    by (simp add: c)
qed

text \<open>
  One character whose status is two dollar signs, and a plotting library in which saving
  the figure raises: the report ends in \<open>savefig\<close>. The chart calls up to it were made, the
  figure was not shown, and neither the header of the species filter nor anything of the
  name search was printed.
\<close>

theorem process_data_counterexample:
  "is_record cash
   \<and> process_data savefig_raises \<lparr>data = JList [cash]\<rparr> =
     (\<lparr>data = JList [cash]\<rparr>,
      [Figure 10 6, Bar [JStr ''$$''] [1] [''blue'', ''green'', ''red''],
       Xlabel ''Character Status'' 14, Ylabel ''Count'' 14,
       Title ''Distribution of Character Statuses in Rick and Morty'' 16,
       Xticks 12, Yticks 12, BarText 0 1, Savefig ''status_distribution.png''],
      Inl (PlotError ''ValueError''))
   \<and> species_header ''Human''
       \<notin> set (fst (snd (process_data savefig_raises \<lparr>data = JList [cash]\<rparr>)))
   \<and> name_header ''Morty''
       \<notin> set (fst (snd (process_data savefig_raises \<lparr>data = JList [cash]\<rparr>)))"
  by code_simp

text \<open>
  C9. Each report operation (status distribution, species filter, name search, and the
  default report) leaves the processor holding the value it was constructed with,
  whatever that value is, however the plotting library behaves and whether or not the
  operation raises.
\<close>

theorem report_leaves_data:
  "data (fst (display_status_distribution plt path \<lparr>data = d\<rparr>)) = d
   \<and> data (fst (show_characters_by_species t \<lparr>data = d\<rparr>)) = d
   \<and> data (fst (find_characters_by_name t \<lparr>data = d\<rparr>)) = d
   \<and> data (fst (process_data plt \<lparr>data = d\<rparr>)) = d"
  using report_only_display [of plt path] report_only_show [of t] report_only_find [of t]
    report_only_process_data [of plt]
  by (simp add: report_only_def)

text \<open>
  On the fixture, on a value that is no list at all, and on a report that ends in a
  plotting call that raises.
\<close>

theorem report_leaves_data_witness:
  "data (fst (process_data plt_ok \<lparr>data = JList fixture\<rparr>)) = JList fixture
   \<and> data (fst (find_characters_by_name ''Morty'' \<lparr>data = JNull\<rparr>)) = JNull
   \<and> data (fst (process_data savefig_raises \<lparr>data = JList [cash]\<rparr>)) = JList [cash]"
  using report_leaves_data [of plt_ok "''status_distribution.png''" "JList fixture" "''Morty''"]
    report_leaves_data [of plt_ok "''status_distribution.png''" JNull "''Morty''"]
    report_leaves_data [of savefig_raises "''status_distribution.png''" "JList [cash]" "''Morty''"]
  by simp

end
